theory Spec2Isabelle
  imports Complex_Main "HOL-Library.Log_Nat"
begin

section \<open>The movable action: data model\<close>

text \<open>
  The embedding follows \<^verbatim>\<open>packages/actions/movable/src/movable.ts\<close>. The closure variables
  of one \<^verbatim>\<open>movable\<close> instance and the part of the browser it reads and writes are an
  explicit state, every handler is a function from state to state.

  JavaScript numbers are IEEE 754 doubles. The handlers are first given over the real
  numbers, with exact arithmetic: which branch runs, what is written where and which
  events are dispatched is read off that form. The move handler is then given a second
  time with the result of every arithmetic operation rounded to the nearest double; the
  bounds on the numbers it computes are settled on the second form. NaN and the
  infinities are not represented: the exponent of a double is unbounded above here.
\<close>

type_synonym elem = nat

text \<open>The document: a tree of elements, each with its identity.\<close>

datatype dom = Element elem "dom list"

text \<open>
  \<^verbatim>\<open>insideBoundingRect\<close> is a \<^verbatim>\<open>Record<'top' | 'bottom' | 'left' | 'right', number>\<close>;
  a \<^verbatim>\<open>DOMRect\<close> has these four edges, and its width and height.
\<close>

record rect =
  rect_top :: real
  rect_bottom :: real
  rect_left :: real
  rect_right :: real

record DOMRect = rect +
  rect_width :: real
  rect_height :: real

datatype delta_unit = Percent | Px

record delta_axis =
  axis_unit :: delta_unit
  axis_value :: real

record normalized_delta =
  delta_x :: delta_axis
  delta_y :: delta_axis

datatype parent_ref = Screen | ParentElement elem

text \<open>
  The result of \<^verbatim>\<open>input(node, parameters)\<close> (from \<^verbatim>\<open>./utils\<close>), as \<^verbatim>\<open>movable\<close>
  destructures it. A \<^verbatim>\<open>parent\<close> or an \<^verbatim>\<open>ignore\<close> that is undefined is \<open>None\<close>.
\<close>

record config =
  parent :: "parent_ref option"
  normalizedDelta :: normalized_delta
  handle :: elem
  enabled :: bool
  ignore :: "string option"
  cursor :: bool

record mouse_position =
  pos_x :: real
  pos_y :: real

record node_position =
  pos_top :: real
  pos_left :: real

record mouse_event =
  clientX :: real
  clientY :: real
  target :: elem

text \<open>
  What the layout engine answers while one event is handled:
  \<^verbatim>\<open>e.getBoundingClientRect()\<close>, \<^verbatim>\<open>window.innerWidth\<close>, \<^verbatim>\<open>window.innerHeight\<close> and
  \<^verbatim>\<open>getComputedStyle(e).getPropertyValue(p)\<close>.
\<close>

record layout =
  getBoundingClientRect :: "elem \<Rightarrow> DOMRect"
  innerWidth :: real
  innerHeight :: real
  getComputedStyle :: "elem \<Rightarrow> string \<Rightarrow> string"

text \<open>
  The inline style properties the action writes. A value is a string, or the pixel
  length written by the template literal \<^verbatim>\<open>`${left}px`\<close>; an unset property reads as the
  empty string.
\<close>

datatype style_prop = Cursor | UserSelect | Position | Left | Top

datatype css_value = Str string | Pixels real

datatype custom_event = CustomEvent string node_position

text \<open>
  The page as the instance sees it: the document tree, which elements a selector matches,
  and the inline styles (a store indexed by element, since \<^verbatim>\<open>handle\<close>, \<^verbatim>\<open>node\<close>,
  \<^verbatim>\<open>document.body\<close> and the ignored elements may alias).
\<close>

record browser =
  document :: dom
  matches :: "string \<Rightarrow> elem \<Rightarrow> bool"
  styles :: "elem \<Rightarrow> style_prop \<Rightarrow> css_value"

text \<open>
  One instance: its closure variables, the page, and what the instance's own closures
  have registered and emitted: the elements on which \<^verbatim>\<open>onMouseDown\<close> is registered for
  \<^verbatim>\<open>mousedown\<close> (capture), whether \<^verbatim>\<open>onMouseMove\<close> and \<^verbatim>\<open>end\<close> are registered on
  \<^verbatim>\<open>window\<close>, the custom events dispatched on \<^verbatim>\<open>node\<close> so far, and the number of queued
  \<^verbatim>\<open>tick().then(() => addCursor())\<close> callbacks.
\<close>

record state =
  cfg :: config
  node :: elem
  lastMousePosition :: mouse_position
  lastNodePosition :: node_position
  sum_dx :: real
  sum_dy :: real
  env :: browser
  mousedown_capture :: "elem list"
  window_mousemove :: bool
  window_mouseup :: bool
  dispatched :: "custom_event list"
  microtasks :: nat

definition body :: elem where
  "body = 0"

section \<open>Browser operations\<close>

definition set_style :: "elem \<Rightarrow> style_prop \<Rightarrow> css_value \<Rightarrow> state \<Rightarrow> state" where
  "set_style e p v s =
     s\<lparr>env := (env s)\<lparr>styles := (styles (env s))(e := (styles (env s) e)(p := v))\<rparr>\<rparr>"

definition get_style :: "state \<Rightarrow> elem \<Rightarrow> style_prop \<Rightarrow> css_value" where
  "get_style s e p = styles (env s) e p"

definition removeProperty :: "elem \<Rightarrow> style_prop \<Rightarrow> state \<Rightarrow> state" where
  "removeProperty e p s = set_style e p (Str []) s"

definition dispatchEvent :: "custom_event \<Rightarrow> state \<Rightarrow> state" where
  "dispatchEvent ev s = s\<lparr>dispatched := dispatched s @ [ev]\<rparr>"

text \<open>
  \<^verbatim>\<open>addEventListener\<close> does not add a listener that is already registered with the same
  type, callback and capture flag; \<^verbatim>\<open>removeEventListener\<close> removes it.
\<close>

definition addEventListener_mousedown :: "elem \<Rightarrow> state \<Rightarrow> state" where
  "addEventListener_mousedown h s =
     s\<lparr>mousedown_capture :=
         (if h \<in> set (mousedown_capture s) then mousedown_capture s
          else mousedown_capture s @ [h])\<rparr>"

definition removeEventListener_mousedown :: "elem \<Rightarrow> state \<Rightarrow> state" where
  "removeEventListener_mousedown h s =
     s\<lparr>mousedown_capture := removeAll h (mousedown_capture s)\<rparr>"

fun root :: "dom \<Rightarrow> elem" where
  "root (Element e cs) = e"

fun subtrees :: "dom \<Rightarrow> dom list" where
  "subtrees (Element e cs) = Element e cs # concat (map subtrees cs)"

definition descendants :: "dom \<Rightarrow> elem list" where
  "descendants t = map root (tl (subtrees t))"

definition find_element :: "dom \<Rightarrow> elem \<Rightarrow> dom option" where
  "find_element d e = find (\<lambda>t. root t = e) (subtrees d)"

definition descendants_of :: "dom \<Rightarrow> elem \<Rightarrow> elem list" where
  "descendants_of d e = (case find_element d e of None \<Rightarrow> [] | Some t \<Rightarrow> descendants t)"

text \<open>\<^verbatim>\<open>h.querySelectorAll(sel)\<close>: the descendants of \<open>h\<close> that match, in document order.\<close>

definition querySelectorAll :: "state \<Rightarrow> elem \<Rightarrow> string \<Rightarrow> elem list" where
  "querySelectorAll s h sel = filter (matches (env s) sel) (descendants_of (document (env s)) h)"

section \<open>The handlers\<close>

text \<open>Lines 116-118. An empty selector string is falsy, as an undefined one.\<close>

definition getIgnoredElements :: "state \<Rightarrow> elem list" where
  "getIgnoredElements s =
     (case ignore (cfg s) of
        None \<Rightarrow> []
      | Some sel \<Rightarrow> if sel = [] then [] else querySelectorAll s (handle (cfg s)) sel)"

definition updateLastMousePosition :: "mouse_event \<Rightarrow> state \<Rightarrow> state" where
  "updateLastMousePosition event s =
     s\<lparr>lastMousePosition := \<lparr>pos_x = clientX event, pos_y = clientY event\<rparr>\<rparr>"

definition updateLastNodePosition :: "node_position \<Rightarrow> state \<Rightarrow> state" where
  "updateLastNodePosition p s =
     s\<lparr>lastNodePosition := \<lparr>pos_top = pos_top p, pos_left = pos_left p\<rparr>\<rparr>"

text \<open>Lines 139-157: the two switches on the unit of the normalized delta.\<close>

definition boundX :: "normalized_delta \<Rightarrow> DOMRect \<Rightarrow> real" where
  "boundX nd nodeBoundingRect =
     (case axis_unit (delta_x nd) of
        Percent \<Rightarrow> (axis_value (delta_x nd) * rect_width nodeBoundingRect) / 100
      | Px \<Rightarrow> axis_value (delta_x nd))"

definition boundY :: "normalized_delta \<Rightarrow> DOMRect \<Rightarrow> real" where
  "boundY nd nodeBoundingRect =
     (case axis_unit (delta_y nd) of
        Percent \<Rightarrow> (axis_value (delta_y nd) * rect_height nodeBoundingRect) / 100
      | Px \<Rightarrow> axis_value (delta_y nd))"

text \<open>Lines 160-170.\<close>

definition insideBoundingRect :: "layout \<Rightarrow> parent_ref \<Rightarrow> rect" where
  "insideBoundingRect L p =
     (case p of
        Screen \<Rightarrow>
          \<lparr>rect_top = 0, rect_bottom = innerHeight L, rect_left = 0, rect_right = innerWidth L\<rparr>
      | ParentElement e \<Rightarrow>
          \<lparr>rect_top = rect_top (getBoundingClientRect L e),
           rect_bottom = rect_bottom (getBoundingClientRect L e),
           rect_left = rect_left (getBoundingClientRect L e),
           rect_right = rect_right (getBoundingClientRect L e)\<rparr>)"

text \<open>
  Lines 130-217. \<open>dx\<close>, \<open>dy\<close> are the source's \<^verbatim>\<open>\<Delta>x\<close>, \<^verbatim>\<open>\<Delta>y\<close>; \<open>sum_dx\<close>, \<open>sum_dy\<close> its
  \<^verbatim>\<open>\<Sigma>\<Delta>x\<close>, \<^verbatim>\<open>\<Sigma>\<Delta>y\<close>. \<open>top0\<close>, \<open>left0\<close> are \<^verbatim>\<open>top\<close>, \<^verbatim>\<open>left\<close> as first assigned,
  \<open>clamped\<close> holds them after the \<^verbatim>\<open>if (parent) ... else ...\<close>.
\<close>

definition onMouseMove :: "layout \<Rightarrow> mouse_event \<Rightarrow> state \<Rightarrow> state" where
  "onMouseMove L event s =
     (let dx = clientX event - pos_x (lastMousePosition s);
          dy = clientY event - pos_y (lastMousePosition s);
          s1 = updateLastMousePosition event s;
          top0 = pos_top (lastNodePosition s1) + dy;
          left0 = pos_left (lastNodePosition s1) + dx;
          nodeBoundingRect = getBoundingClientRect L (node s1);
          bound_x = boundX (normalizedDelta (cfg s1)) nodeBoundingRect;
          bound_y = boundY (normalizedDelta (cfg s1)) nodeBoundingRect;
          clamped =
            (case parent (cfg s1) of
               Some p \<Rightarrow>
                 (let inside = insideBoundingRect L p;
                      newAbsTop = rect_top nodeBoundingRect + dy + bound_y;
                      top1 =
                        (if newAbsTop < rect_top inside
                         then top0 + (rect_top inside - newAbsTop)
                         else
                           (let newAbsBottom = rect_bottom nodeBoundingRect + dy - bound_y
                            in if newAbsBottom > rect_bottom inside
                               then top0 - (newAbsBottom - rect_bottom inside)
                               else top0));
                      newAbsLeft = rect_left nodeBoundingRect + dx + bound_x;
                      left1 =
                        (if newAbsLeft < rect_left inside
                         then left0 + (rect_left inside - newAbsLeft)
                         else
                           (let newAbsRight = rect_right nodeBoundingRect + dx - bound_x
                            in if newAbsRight > rect_right inside
                               then left0 - (newAbsRight - rect_right inside)
                               else left0))
                  in \<lparr>pos_top = top1, pos_left = left1\<rparr>)
             | None \<Rightarrow>
                 (let left1 =
                        (if bound_x > 0
                         then
                           (let newSumDx = sum_dx s1 + left0 - pos_left (lastNodePosition s1)
                            in if newSumDx > bound_x then left0 - (newSumDx - bound_x)
                               else if newSumDx < - bound_x then left0 - (newSumDx + bound_x)
                               else left0)
                         else left0);
                      top1 =
                        (if bound_y > 0
                         then
                           (let newSumDy = sum_dy s1 + top0 - pos_top (lastNodePosition s1)
                            in if newSumDy > bound_y then top0 - (newSumDy - bound_y)
                               else if newSumDy < - bound_y then top0 - (newSumDy + bound_y)
                               else top0)
                         else top0)
                  in \<lparr>pos_top = top1, pos_left = left1\<rparr>));
          s2 = set_style (node s1) Left (Pixels (pos_left clamped)) s1;
          s3 = set_style (node s2) Top (Pixels (pos_top clamped)) s2;
          s4 = s3\<lparr>sum_dx := sum_dx s3 + (pos_left clamped - pos_left (lastNodePosition s3))\<rparr>;
          s5 = s4\<lparr>sum_dy := sum_dy s4 + (pos_top clamped - pos_top (lastNodePosition s4))\<rparr>
      in updateLastNodePosition clamped s5)"

text \<open>
  Lines 243-245: \<^verbatim>\<open>str.match('^[-0-9]+')?.[0] ?? '0'\<close> and \<^verbatim>\<open>parseInt\<close>. The match is the
  longest prefix of minus signs and digits, and there is none when that prefix is empty.
  \<^verbatim>\<open>parseInt\<close> reads an optional minus sign and the decimal digits after it. A match with no
  digit in that place (\<^verbatim>\<open>'-'\<close> alone or \<^verbatim>\<open>'--'\<close>, which no computed offset starts with) is
  NaN in JavaScript and reads as 0 here.
\<close>

definition match_regex :: "string \<Rightarrow> string option" where
  "match_regex str =
     (let m = takeWhile (\<lambda>c. c \<in> set ''-0123456789'') str
      in if m = [] then None else Some m)"

definition digit_value :: "char \<Rightarrow> nat" where
  "digit_value c = of_char c - 48"

definition parseInt :: "string \<Rightarrow> real" where
  "parseInt str =
     (let negative = (case str of [] \<Rightarrow> False | c # _ \<Rightarrow> c = CHR ''-'');
          digits = takeWhile (\<lambda>c. c \<in> set ''0123456789'') (if negative then tl str else str);
          n = foldl (\<lambda>n c. 10 * n + digit_value c) 0 digits
      in if negative then - real n else real n)"

text \<open>Lines 219-232.\<close>

definition end_handler :: "state \<Rightarrow> state" where
  "end_handler s =
     (let s1 = set_style body UserSelect (Str []) s;
          s2 =
            (if cursor (cfg s1)
             then
               (let s' =
                      (if get_style s1 body Cursor = Str ''grabbing''
                       then removeProperty body Cursor s1
                       else s1)
                in set_style (handle (cfg s')) Cursor (Str ''grab'') s')
             else s1);
          s3 = s2\<lparr>window_mousemove := False\<rparr>;
          s4 = s3\<lparr>window_mouseup := False\<rparr>
      in dispatchEvent (CustomEvent ''movableend'' (lastNodePosition s4)) s4)"

text \<open>Lines 234-266.\<close>

definition onMouseDown :: "layout \<Rightarrow> mouse_event \<Rightarrow> state \<Rightarrow> state" where
  "onMouseDown L event s =
     (let ignoredElements = getIgnoredElements s
      in if list_ex (\<lambda>n. n = target event) ignoredElements then s
         else
           (let computedStyles = getComputedStyle L (node s);
                left = parseInt (case match_regex (computedStyles ''left'') of
                                   Some m \<Rightarrow> m | None \<Rightarrow> ''0'');
                top = parseInt (case match_regex (computedStyles ''top'') of
                                  Some m \<Rightarrow> m | None \<Rightarrow> ''0'');
                s1 = updateLastNodePosition \<lparr>pos_top = top, pos_left = left\<rparr> s;
                s2 = dispatchEvent (CustomEvent ''movablestart'' (lastNodePosition s1)) s1;
                position = computedStyles ''position'';
                s3 =
                  (if position \<noteq> ''relative'' \<and> position \<noteq> ''absolute'' \<and> position \<noteq> ''fixed''
                   then set_style (node s2) Position (Str ''relative'') s2
                   else s2);
                s4 = updateLastMousePosition event s3;
                s5 = set_style body UserSelect (Str ''none'') s4;
                s6 =
                  (if cursor (cfg s5)
                   then set_style (handle (cfg s5)) Cursor (Str ''grabbing'')
                          (set_style body Cursor (Str ''grabbing'') s5)
                   else s5);
                s7 = s6\<lparr>window_mousemove := True\<rparr>
            in s7\<lparr>window_mouseup := True\<rparr>))"

text \<open>Lines 268-278. The loop over the ignored elements is a fold.\<close>

definition addCursor :: "state \<Rightarrow> state" where
  "addCursor s =
     (if cursor (cfg s)
      then
        (let s1 = set_style (handle (cfg s)) Cursor (Str ''grab'') s;
             ignoredElements = getIgnoredElements s1
         in foldl (\<lambda>s' e. if get_style s' e Cursor = Str [] then set_style e Cursor (Str ''auto'') s'
                           else s')
              s1 ignoredElements)
      else s)"

text \<open>Lines 279-291.\<close>

definition removeCursor :: "state \<Rightarrow> state" where
  "removeCursor s =
     (if cursor (cfg s)
      then
        (let s1 =
               (if get_style s (handle (cfg s)) Cursor = Str ''grab''
                then removeProperty (handle (cfg s)) Cursor s
                else s);
             ignoredElements = getIgnoredElements s1
         in foldl (\<lambda>s' e. if get_style s' e Cursor = Str ''auto'' then removeProperty e Cursor s'
                           else s')
              s1 ignoredElements)
      else s)"

text \<open>
  \<^verbatim>\<open>tick().then(() => { addCursor(); })\<close> queues a callback; \<open>run_microtask\<close> runs the
  oldest queued one. The callback reads the closure variables as they are when it runs.
\<close>

definition tick_then_addCursor :: "state \<Rightarrow> state" where
  "tick_then_addCursor s = s\<lparr>microtasks := Suc (microtasks s)\<rparr>"

definition run_microtask :: "state \<Rightarrow> state" where
  "run_microtask s =
     (case microtasks s of
        0 \<Rightarrow> s
      | Suc n \<Rightarrow> addCursor (s\<lparr>microtasks := n\<rparr>))"

text \<open>
  Lines 105-114 and 293-298: the action is attached to \<open>n\<close> in the page \<open>b\<close>, with the
  resolved parameters \<open>c\<close>. The closures are new, so nothing is registered, emitted or
  queued yet.
\<close>

definition movable :: "elem \<Rightarrow> config \<Rightarrow> browser \<Rightarrow> state" where
  "movable n c b =
     (let s = \<lparr>cfg = c, node = n,
                lastMousePosition = \<lparr>pos_x = 0, pos_y = 0\<rparr>,
                lastNodePosition = \<lparr>pos_top = 0, pos_left = 0\<rparr>,
                sum_dx = 0, sum_dy = 0, env = b,
                mousedown_capture = [], window_mousemove = False, window_mouseup = False,
                dispatched = [], microtasks = 0\<rparr>
      in if enabled (cfg s)
         then tick_then_addCursor (addEventListener_mousedown (handle (cfg s)) s)
         else s)"

text \<open>
  Lines 300-311, in the two halves of the assignment to the closure variables: what runs
  with the old configuration, then the new configuration \<open>c\<close> and what runs with it.
\<close>

definition update_detach :: "state \<Rightarrow> state" where
  "update_detach s = removeEventListener_mousedown (handle (cfg s)) (removeCursor s)"

definition update_attach :: "config \<Rightarrow> state \<Rightarrow> state" where
  "update_attach c s =
     (let s1 = s\<lparr>cfg := c\<rparr>
      in if enabled (cfg s1)
         then tick_then_addCursor (addEventListener_mousedown (handle (cfg s1)) s1)
         else s1)"

definition update :: "config \<Rightarrow> state \<Rightarrow> state" where
  "update c s = update_attach c (update_detach s)"

text \<open>Lines 312-315.\<close>

definition destroy :: "state \<Rightarrow> state" where
  "destroy s = removeCursor (removeEventListener_mousedown (handle (cfg s)) s)"

section \<open>The move handler in double arithmetic\<close>

text \<open>
  A finite double is a multiple \<open>m * 2 ^ e\<close> of a power of two with \<open>\<bar>m\<bar> < 2 ^ 53\<close> and
  \<open>- 1074 \<le> e\<close>. An arithmetic operation of JavaScript returns the double nearest to the
  exact result, and of two nearest ones the one with even \<open>m\<close>.

  \<open>ulp_exponent x\<close> is the exponent of the doubles around \<open>x\<close>: the \<open>e\<close> with
  \<open>2 ^ (e + 52) \<le> \<bar>x\<bar> < 2 ^ (e + 53)\<close>, and \<open>- 1074\<close> below the normal range.
  \<open>round_double x\<close> is the multiple of \<open>2 ^ e\<close> nearest to \<open>x\<close>, the even one at a tie.
\<close>

definition round_even :: "real \<Rightarrow> int" where
  "round_even x =
     (let f = \<lfloor>x\<rfloor>; d = x - of_int f
      in if d < 1 / 2 then f else if 1 / 2 < d then f + 1 else if even f then f else f + 1)"

definition ulp_exponent :: "real \<Rightarrow> int" where
  "ulp_exponent x = max (bitlen \<lfloor>\<bar>x\<bar> * 2 ^ 1074\<rfloor> - 1 - 1074 - 52) (- 1074)"

definition round_double :: "real \<Rightarrow> real" where
  "round_double x = of_int (round_even (x / 2 powi ulp_exponent x)) * 2 powi ulp_exponent x"

text \<open>
  Lines 139-157 and 130-217 again, with the result of every \<^verbatim>\<open>+\<close>, \<^verbatim>\<open>-\<close>, \<^verbatim>\<open>*\<close> and \<^verbatim>\<open>/\<close>
  rounded, in the order JavaScript evaluates them: \<^verbatim>\<open>a + b + c\<close> is \<^verbatim>\<open>(a + b) + c\<close>, and
  \<^verbatim>\<open>x += e\<close> adds the value of \<^verbatim>\<open>e\<close> to \<^verbatim>\<open>x\<close>.
\<close>

definition boundX_double :: "normalized_delta \<Rightarrow> DOMRect \<Rightarrow> real" where
  "boundX_double nd nodeBoundingRect =
     (case axis_unit (delta_x nd) of
        Percent \<Rightarrow>
          round_double (round_double (axis_value (delta_x nd) * rect_width nodeBoundingRect) / 100)
      | Px \<Rightarrow> axis_value (delta_x nd))"

definition boundY_double :: "normalized_delta \<Rightarrow> DOMRect \<Rightarrow> real" where
  "boundY_double nd nodeBoundingRect =
     (case axis_unit (delta_y nd) of
        Percent \<Rightarrow>
          round_double (round_double (axis_value (delta_y nd) * rect_height nodeBoundingRect) / 100)
      | Px \<Rightarrow> axis_value (delta_y nd))"

definition onMouseMove_double :: "layout \<Rightarrow> mouse_event \<Rightarrow> state \<Rightarrow> state" where
  "onMouseMove_double L event s =
     (let dx = round_double (clientX event - pos_x (lastMousePosition s));
          dy = round_double (clientY event - pos_y (lastMousePosition s));
          s1 = updateLastMousePosition event s;
          top0 = round_double (pos_top (lastNodePosition s1) + dy);
          left0 = round_double (pos_left (lastNodePosition s1) + dx);
          nodeBoundingRect = getBoundingClientRect L (node s1);
          bound_x = boundX_double (normalizedDelta (cfg s1)) nodeBoundingRect;
          bound_y = boundY_double (normalizedDelta (cfg s1)) nodeBoundingRect;
          clamped =
            (case parent (cfg s1) of
               Some p \<Rightarrow>
                 (let inside = insideBoundingRect L p;
                      newAbsTop =
                        round_double (round_double (rect_top nodeBoundingRect + dy) + bound_y);
                      top1 =
                        (if newAbsTop < rect_top inside
                         then round_double (top0 + round_double (rect_top inside - newAbsTop))
                         else
                           (let newAbsBottom =
                                  round_double
                                    (round_double (rect_bottom nodeBoundingRect + dy) - bound_y)
                            in if newAbsBottom > rect_bottom inside
                               then round_double
                                      (top0 - round_double (newAbsBottom - rect_bottom inside))
                               else top0));
                      newAbsLeft =
                        round_double (round_double (rect_left nodeBoundingRect + dx) + bound_x);
                      left1 =
                        (if newAbsLeft < rect_left inside
                         then round_double (left0 + round_double (rect_left inside - newAbsLeft))
                         else
                           (let newAbsRight =
                                  round_double
                                    (round_double (rect_right nodeBoundingRect + dx) - bound_x)
                            in if newAbsRight > rect_right inside
                               then round_double
                                      (left0 - round_double (newAbsRight - rect_right inside))
                               else left0))
                  in \<lparr>pos_top = top1, pos_left = left1\<rparr>)
             | None \<Rightarrow>
                 (let left1 =
                        (if bound_x > 0
                         then
                           (let newSumDx =
                                  round_double
                                    (round_double (sum_dx s1 + left0) -
                                     pos_left (lastNodePosition s1))
                            in if newSumDx > bound_x
                               then round_double (left0 - round_double (newSumDx - bound_x))
                               else if newSumDx < - bound_x
                               then round_double (left0 - round_double (newSumDx + bound_x))
                               else left0)
                         else left0);
                      top1 =
                        (if bound_y > 0
                         then
                           (let newSumDy =
                                  round_double
                                    (round_double (sum_dy s1 + top0) -
                                     pos_top (lastNodePosition s1))
                            in if newSumDy > bound_y
                               then round_double (top0 - round_double (newSumDy - bound_y))
                               else if newSumDy < - bound_y
                               then round_double (top0 - round_double (newSumDy + bound_y))
                               else top0)
                         else top0)
                  in \<lparr>pos_top = top1, pos_left = left1\<rparr>));
          s2 = set_style (node s1) Left (Pixels (pos_left clamped)) s1;
          s3 = set_style (node s2) Top (Pixels (pos_top clamped)) s2;
          s4 = s3\<lparr>sum_dx :=
                   round_double
                     (sum_dx s3 +
                      round_double (pos_left clamped - pos_left (lastNodePosition s3)))\<rparr>;
          s5 = s4\<lparr>sum_dy :=
                   round_double
                     (sum_dy s4 +
                      round_double (pos_top clamped - pos_top (lastNodePosition s4)))\<rparr>
      in updateLastNodePosition clamped s5)"


definition free_axis_double :: "real \<Rightarrow> real \<Rightarrow> real \<Rightarrow> real \<Rightarrow> real \<Rightarrow> real" where
  "free_axis_double cur pointer lastPointer acc bound =
     (let d = round_double (pointer - lastPointer);
          candidate = round_double (cur + d)
      in if bound > 0
         then
           (let newSum = round_double (round_double (acc + candidate) - cur)
            in if newSum > bound then round_double (candidate - round_double (newSum - bound))
               else if newSum < - bound
               then round_double (candidate - round_double (newSum + bound))
               else candidate)
         else candidate)"

section \<open>Event delivery\<close>



definition mousemove :: "layout \<Rightarrow> mouse_event \<Rightarrow> state \<Rightarrow> state" where
  "mousemove L event s = (if window_mousemove s then onMouseMove L event s else s)"

definition mouseup :: "state \<Rightarrow> state" where
  "mouseup s = (if window_mouseup s then end_handler s else s)"

text \<open>A run of \<^verbatim>\<open>mousemove\<close> events, each with the layout it is handled in.\<close>

fun mousemoves :: "(layout \<times> mouse_event) list \<Rightarrow> state \<Rightarrow> state" where
  "mousemoves [] s = s"
| "mousemoves ((L, event) # ms) s = mousemoves ms (mousemove L event s)"

section \<open>The specification's clamp and the geometry of a move\<close>

text \<open>
  The specification's margin of one axis: the limit value as a percentage of the node's
  own size, or as an absolute offset.
\<close>

definition spec_margin :: "delta_axis \<Rightarrow> real \<Rightarrow> real" where
  "spec_margin a extent =
     (case axis_unit a of Percent \<Rightarrow> axis_value a * extent / 100 | Px \<Rightarrow> axis_value a)"











text \<open>
  Numbers on which the operations of a move do not round: the whole numbers of magnitude
  at most \<open>2 ^ 24\<close>. Their sums, differences and products are whole numbers of magnitude
  below \<open>2 ^ 53\<close>, and every such number is a double. A margin is exact when it is such a
  number and, for a percentage, the percentage and the extent it is taken of are.
\<close>

definition whole :: "real \<Rightarrow> bool" where
  "whole x = (of_int \<lfloor>x\<rfloor> = x \<and> - 16777216 \<le> x \<and> x \<le> 16777216)"


text \<open>
  On other numbers an operation is off by at most one part in \<open>2 ^ 53\<close> of its result,
  or by the smallest positive double where the doubles are evenly spaced.
  \<open>rounding_slack a\<close> bounds what the roundings of one move add up to on one axis, for
  numbers whose magnitudes sum to \<open>a\<close>.
\<close>

definition min_double :: real where
  "min_double = 2 powi (- 1074)"

definition rounding_slack :: "real \<Rightarrow> real" where
  "rounding_slack a = a / 2 ^ 47 + 16 * min_double"

text \<open>
  By how much the cumulative displacement of one axis can exceed the bound after a move
  without a boundary: nothing on whole numbers, the rounding slack otherwise. \<open>cur\<close> is
  the recorded offset and \<open>acc\<close> the cumulative displacement before the move.
\<close>

definition free_slack :: "real \<Rightarrow> real \<Rightarrow> real \<Rightarrow> real \<Rightarrow> real \<Rightarrow> real" where
  "free_slack cur pointer lastPointer acc bound =
     (if whole cur \<and> whole pointer \<and> whole lastPointer \<and> whole acc \<and> whole bound then 0
      else rounding_slack (\<bar>acc\<bar> + \<bar>cur\<bar> + \<bar>pointer - lastPointer\<bar> + bound))"

definition free_slack_x :: "layout \<Rightarrow> mouse_event \<Rightarrow> state \<Rightarrow> real" where
  "free_slack_x L event s =
     free_slack (pos_left (lastNodePosition s)) (clientX event) (pos_x (lastMousePosition s))
       (sum_dx s) (boundX_double (normalizedDelta (cfg s)) (getBoundingClientRect L (node s)))"

definition free_slack_y :: "layout \<Rightarrow> mouse_event \<Rightarrow> state \<Rightarrow> real" where
  "free_slack_y L event s =
     free_slack (pos_top (lastNodePosition s)) (clientY event) (pos_y (lastMousePosition s))
       (sum_dy s) (boundY_double (normalizedDelta (cfg s)) (getBoundingClientRect L (node s)))"




text \<open>
  The double arithmetic above has no infinities. It is the handler's arithmetic as long
  as no operation overflows, which is so when the numbers a move reads are of magnitude
  at most \<open>2 ^ 500\<close>.
\<close>

definition in_range :: "real \<Rightarrow> bool" where
  "in_range x = (\<bar>x\<bar> \<le> 2 ^ 500)"

definition move_in_range :: "layout \<Rightarrow> mouse_event \<Rightarrow> state \<Rightarrow> bool" where
  "move_in_range L event s =
     (in_range (clientX event) \<and> in_range (clientY event) \<and>
      in_range (pos_x (lastMousePosition s)) \<and> in_range (pos_y (lastMousePosition s)) \<and>
      in_range (pos_top (lastNodePosition s)) \<and> in_range (pos_left (lastNodePosition s)) \<and>
      in_range (sum_dx s) \<and> in_range (sum_dy s) \<and>
      in_range (axis_value (delta_x (normalizedDelta (cfg s)))) \<and>
      in_range (axis_value (delta_y (normalizedDelta (cfg s)))) \<and>
      in_range (rect_top (getBoundingClientRect L (node s))) \<and>
      in_range (rect_bottom (getBoundingClientRect L (node s))) \<and>
      in_range (rect_left (getBoundingClientRect L (node s))) \<and>
      in_range (rect_right (getBoundingClientRect L (node s))) \<and>
      in_range (rect_width (getBoundingClientRect L (node s))) \<and>
      in_range (rect_height (getBoundingClientRect L (node s))) \<and>
      (case parent (cfg s) of
         None \<Rightarrow> True
       | Some p \<Rightarrow>
           in_range (rect_top (insideBoundingRect L p)) \<and>
           in_range (rect_bottom (insideBoundingRect L p)) \<and>
           in_range (rect_left (insideBoundingRect L p)) \<and>
           in_range (rect_right (insideBoundingRect L p))))"

section \<open>A concrete page\<close>

text \<open>
  The body (0) holds a container (1), which holds the node (2); the node holds the handle
  (3), the handle an element (4) that the selector \<^verbatim>\<open>.ignore\<close> matches, and that one an
  element (5) that it does not match. No inline style is set. The window is 500 by 500,
  as is every box but the node's; the node's computed position is \<^verbatim>\<open>relative\<close> and its
  computed offsets are \<^verbatim>\<open>0px\<close>.
\<close>

definition example_document :: dom where
  "example_document = Element 0 [Element 1 [Element 2 [Element 3 [Element 4 [Element 5 []]]]]]"

definition example_browser :: browser where
  "example_browser =
     \<lparr>document = example_document,
      matches = (\<lambda>sel e. sel = ''.ignore'' \<and> e = 4),
      styles = (\<lambda>e p. Str [])\<rparr>"

definition example_config :: "parent_ref option \<Rightarrow> real \<Rightarrow> real \<Rightarrow> config" where
  "example_config par lx ly =
     \<lparr>parent = par,
      normalizedDelta =
        \<lparr>delta_x = \<lparr>axis_unit = Px, axis_value = lx\<rparr>,
         delta_y = \<lparr>axis_unit = Px, axis_value = ly\<rparr>\<rparr>,
      handle = 3, enabled = True, ignore = Some ''.ignore'', cursor = True\<rparr>"

definition example_rect :: "real \<Rightarrow> real \<Rightarrow> real \<Rightarrow> real \<Rightarrow> DOMRect" where
  "example_rect t l w h =
     \<lparr>rect_top = t, rect_bottom = t + h, rect_left = l, rect_right = l + w,
      rect_width = w, rect_height = h\<rparr>"

definition example_layout :: "DOMRect \<Rightarrow> layout" where
  "example_layout box =
     \<lparr>getBoundingClientRect = (\<lambda>e. if e = 2 then box else example_rect 0 0 500 500),
      innerWidth = 500, innerHeight = 500,
      getComputedStyle = (\<lambda>e p. if p = ''position'' then ''relative'' else ''0px'')\<rparr>"

definition example_event :: "real \<Rightarrow> real \<Rightarrow> elem \<Rightarrow> mouse_event" where
  "example_event x y t = \<lparr>clientX = x, clientY = y, target = t\<rparr>"

text \<open>
  An instance in the middle of its first drag: the pointer was last seen at (0, 0), the
  node's last position is \<open>t\<close>, \<open>l\<close>, and nothing has been accumulated.
\<close>

definition example_state :: "config \<Rightarrow> real \<Rightarrow> real \<Rightarrow> state" where
  "example_state c t l =
     \<lparr>cfg = c, node = 2,
      lastMousePosition = \<lparr>pos_x = 0, pos_y = 0\<rparr>,
      lastNodePosition = \<lparr>pos_top = t, pos_left = l\<rparr>,
      sum_dx = 0, sum_dy = 0, env = example_browser,
      mousedown_capture = [handle c], window_mousemove = True, window_mouseup = True,
      dispatched = [CustomEvent ''movablestart'' \<lparr>pos_top = t, pos_left = l\<rparr>],
      microtasks = 0\<rparr>"

text \<open>
  A layout of the same page with the computed offsets \<^verbatim>\<open>left\<close> and \<^verbatim>\<open>top\<close> of the node
  given, and a box whose top and bottom edges are the doubles nearest to 0.1 and 100.1.
\<close>

definition example_layout_at :: "DOMRect \<Rightarrow> string \<Rightarrow> string \<Rightarrow> layout" where
  "example_layout_at box l t =
     \<lparr>getBoundingClientRect = (\<lambda>e. if e = 2 then box else example_rect 0 0 500 500),
      innerWidth = 500, innerHeight = 500,
      getComputedStyle =
        (\<lambda>e p. if p = ''position'' then ''relative'' else if p = ''left'' then l
                else if p = ''top'' then t else [])\<rparr>"


text \<open>The page with one inline style set by the host, and the action attached to it.\<close>

definition example_styled :: "elem \<Rightarrow> style_prop \<Rightarrow> string \<Rightarrow> browser" where
  "example_styled e p v =
     example_browser\<lparr>styles := (styles example_browser)(e := (styles example_browser e)(p := Str v))\<rparr>"

definition example_attached :: "browser \<Rightarrow> state" where
  "example_attached b = movable 2 (example_config None 0 0) b"

section \<open>The life cycle while idle\<close>

text \<open>
  What happens to an instance between drags: the host calls \<^verbatim>\<open>update\<close> with new resolved
  parameters, or a queued callback runs.
\<close>

datatype idle_step = Update config | Microtask

fun idle_run :: "idle_step list \<Rightarrow> state \<Rightarrow> state" where
  "idle_run [] s = s"
| "idle_run (Update c # steps) s = idle_run steps (update c s)"
| "idle_run (Microtask # steps) s = idle_run steps (run_microtask s)"

text \<open>
  The configuration the latest \<^verbatim>\<open>update\<close> of a run passed, or the one of the attachment.
\<close>

fun latest_config :: "config \<Rightarrow> idle_step list \<Rightarrow> config" where
  "latest_config c [] = c"
| "latest_config c (Update c' # steps) = latest_config c' steps"
| "latest_config c (Microtask # steps) = latest_config c steps"

section \<open>Frame conditions and the idle invariant\<close>

text \<open>\<open>styles_only s t\<close>: \<open>t\<close> differs from \<open>s\<close> in inline styles at most.\<close>

definition styles_only :: "state \<Rightarrow> state \<Rightarrow> bool" where
  "styles_only s t =
     (cfg t = cfg s \<and> node t = node s \<and> lastMousePosition t = lastMousePosition s \<and>
      lastNodePosition t = lastNodePosition s \<and> sum_dx t = sum_dx s \<and> sum_dy t = sum_dy s \<and>
      document (env t) = document (env s) \<and> matches (env t) = matches (env s) \<and>
      mousedown_capture t = mousedown_capture s \<and> window_mousemove t = window_mousemove s \<and>
      window_mouseup t = window_mouseup s \<and> dispatched t = dispatched s \<and>
      microtasks t = microtasks s)"

text \<open>
  \<open>drag_frame s t\<close>: \<open>t\<close> differs from \<open>s\<close> at most in the positions, the cumulative
  displacements and the inline styles other than the cursor and the text selection.
\<close>

definition drag_frame :: "state \<Rightarrow> state \<Rightarrow> bool" where
  "drag_frame s t =
     (cfg t = cfg s \<and> node t = node s \<and>
      document (env t) = document (env s) \<and> matches (env t) = matches (env s) \<and>
      mousedown_capture t = mousedown_capture s \<and> window_mousemove t = window_mousemove s \<and>
      window_mouseup t = window_mouseup s \<and> dispatched t = dispatched s \<and>
      microtasks t = microtasks s \<and>
      (\<forall>x. get_style t x Cursor = get_style s x Cursor) \<and>
      (\<forall>x. get_style t x UserSelect = get_style s x UserSelect))"

text \<open>
  \<open>idle_inv s\<close>: the press handler is registered on the current handle when the current
  configuration is enabled and nowhere else, and nothing is registered on the window.
\<close>

definition idle_inv :: "state \<Rightarrow> bool" where
  "idle_inv s =
     (mousedown_capture s = (if enabled (cfg s) then [handle (cfg s)] else []) \<and>
      \<not> window_mouseup s \<and> \<not> window_mousemove s)"

section \<open>Properties of the move handler\<close>

lemmas state_ops = set_style_def updateLastMousePosition_def updateLastNodePosition_def

lemmas example_defs = example_config_def example_rect_def example_layout_def example_event_def
  example_state_def



lemma spec_margin_boundX: "spec_margin (delta_x nd) (rect_width r) = boundX nd r"
  by (simp add: spec_margin_def boundX_def)

lemma spec_margin_boundY: "spec_margin (delta_y nd) (rect_height r) = boundY nd r"
  by (simp add: spec_margin_def boundY_def)




text \<open>
  In exact arithmetic, a move without a boundary leaves the cumulative displacement of
  an axis within a positive bound.
\<close>

lemma onMouseMove_sum_dx_free:
  assumes "parent (cfg s) = None"
    and "0 < boundX (normalizedDelta (cfg s)) (getBoundingClientRect L (node s))"
  shows "\<bar>sum_dx (onMouseMove L event s)\<bar> \<le>
           boundX (normalizedDelta (cfg s)) (getBoundingClientRect L (node s))"
  using assms by (auto simp add: onMouseMove_def Let_def state_ops)

lemma onMouseMove_sum_dy_free:
  assumes "parent (cfg s) = None"
    and "0 < boundY (normalizedDelta (cfg s)) (getBoundingClientRect L (node s))"
  shows "\<bar>sum_dy (onMouseMove L event s)\<bar> \<le>
           boundY (normalizedDelta (cfg s)) (getBoundingClientRect L (node s))"
  using assms by (auto simp add: onMouseMove_def Let_def state_ops)







section \<open>Properties of the cursor styles\<close>

lemma styles_only_refl: "styles_only s s"
  by (simp add: styles_only_def)

lemma styles_only_trans: "styles_only s t \<Longrightarrow> styles_only t u \<Longrightarrow> styles_only s u"
  by (simp add: styles_only_def)

lemma styles_only_set_style: "styles_only s (set_style e p v s)"
  by (simp add: styles_only_def set_style_def)

lemma get_style_set_style:
  "get_style (set_style e p v s) e' p' = (if e' = e \<and> p' = p then v else get_style s e' p')"
  by (simp add: get_style_def set_style_def)

lemma getIgnoredElements_styles_only:
  "styles_only s t \<Longrightarrow> getIgnoredElements t = getIgnoredElements s"
  by (simp add: styles_only_def getIgnoredElements_def querySelectorAll_def split: option.splits)

text \<open>The two loops over the ignored elements.\<close>

lemma add_loop_styles_only:
  "styles_only s
     (foldl (\<lambda>s' e. if get_style s' e Cursor = Str [] then set_style e Cursor (Str ''auto'') s'
                     else s') s xs)"
proof (induction xs arbitrary: s)
  case Nil
  show ?case by (simp add: styles_only_refl)
next
  case (Cons x xs)
  let ?f = "\<lambda>s' e. if get_style s' e Cursor = Str [] then set_style e Cursor (Str ''auto'') s'
                     else s'"
  have "styles_only s (?f s x)"
    by (simp add: styles_only_set_style styles_only_refl)
  moreover have "styles_only (?f s x) (foldl ?f (?f s x) xs)"
    by (rule Cons.IH)
  ultimately have "styles_only s (foldl ?f (?f s x) xs)"
    by (rule styles_only_trans)
  then show ?case by (simp only: foldl_Cons)
qed

lemma remove_loop_styles_only:
  "styles_only s
     (foldl (\<lambda>s' e. if get_style s' e Cursor = Str ''auto'' then removeProperty e Cursor s'
                     else s') s xs)"
proof (induction xs arbitrary: s)
  case Nil
  show ?case by (simp add: styles_only_refl)
next
  case (Cons x xs)
  let ?f = "\<lambda>s' e. if get_style s' e Cursor = Str ''auto'' then removeProperty e Cursor s'
                     else s'"
  have "styles_only s (?f s x)"
    by (simp add: removeProperty_def styles_only_set_style styles_only_refl)
  moreover have "styles_only (?f s x) (foldl ?f (?f s x) xs)"
    by (rule Cons.IH)
  ultimately have "styles_only s (foldl ?f (?f s x) xs)"
    by (rule styles_only_trans)
  then show ?case by (simp only: foldl_Cons)
qed

lemma add_loop_get_style:
  "get_style
     (foldl (\<lambda>s' e. if get_style s' e Cursor = Str [] then set_style e Cursor (Str ''auto'') s'
                     else s') s xs) x p =
   (if p = Cursor \<and> x \<in> set xs \<and> get_style s x Cursor = Str [] then Str ''auto''
    else get_style s x p)"
  by (induction xs arbitrary: s) (auto simp add: get_style_set_style)

lemma remove_loop_get_style:
  "get_style
     (foldl (\<lambda>s' e. if get_style s' e Cursor = Str ''auto'' then removeProperty e Cursor s'
                     else s') s xs) x p =
   (if p = Cursor \<and> x \<in> set xs \<and> get_style s x Cursor = Str ''auto'' then Str []
    else get_style s x p)"
  by (induction xs arbitrary: s) (auto simp add: get_style_set_style removeProperty_def)

lemma addCursor_styles_only: "styles_only s (addCursor s)"
proof (cases "cursor (cfg s)")
  case False
  then show ?thesis by (simp add: addCursor_def styles_only_refl)
next
  case True
  let ?s1 = "set_style (handle (cfg s)) Cursor (Str ''grab'') s"
  let ?f = "\<lambda>s' e. if get_style s' e Cursor = Str [] then set_style e Cursor (Str ''auto'') s'
                     else s'"
  have "styles_only s ?s1"
    by (rule styles_only_set_style)
  moreover have "styles_only ?s1 (foldl ?f ?s1 (getIgnoredElements ?s1))"
    by (rule add_loop_styles_only)
  ultimately have "styles_only s (foldl ?f ?s1 (getIgnoredElements ?s1))"
    by (rule styles_only_trans)
  with True show ?thesis by (simp add: addCursor_def Let_def)
qed

lemma removeCursor_styles_only: "styles_only s (removeCursor s)"
proof (cases "cursor (cfg s)")
  case False
  then show ?thesis by (simp add: removeCursor_def styles_only_refl)
next
  case True
  let ?s1 = "if get_style s (handle (cfg s)) Cursor = Str ''grab''
             then removeProperty (handle (cfg s)) Cursor s else s"
  let ?f = "\<lambda>s' e. if get_style s' e Cursor = Str ''auto'' then removeProperty e Cursor s'
                     else s'"
  have "styles_only s ?s1"
    by (simp add: removeProperty_def styles_only_set_style styles_only_refl)
  moreover have "styles_only ?s1 (foldl ?f ?s1 (getIgnoredElements ?s1))"
    by (rule remove_loop_styles_only)
  ultimately have "styles_only s (foldl ?f ?s1 (getIgnoredElements ?s1))"
    by (rule styles_only_trans)
  with True show ?thesis by (simp only: removeCursor_def Let_def if_True)
qed

lemma addCursor_get_style:
  "get_style (addCursor s) x p =
   (if cursor (cfg s) \<and> p = Cursor
    then (if x = handle (cfg s) then Str ''grab''
          else if x \<in> set (getIgnoredElements s) \<and> get_style s x Cursor = Str []
               then Str ''auto'' else get_style s x Cursor)
    else get_style s x p)"
proof (cases "cursor (cfg s)")
  case False
  then show ?thesis by (simp add: addCursor_def)
next
  case True
  let ?s1 = "set_style (handle (cfg s)) Cursor (Str ''grab'') s"
  have ig: "getIgnoredElements ?s1 = getIgnoredElements s"
    by (rule getIgnoredElements_styles_only [OF styles_only_set_style])
  show ?thesis
    using True
    by (simp add: addCursor_def Let_def add_loop_get_style ig get_style_set_style)
qed

lemma removeCursor_get_style:
  "get_style (removeCursor s) x p =
   (if cursor (cfg s) \<and> p = Cursor \<and>
       ((x = handle (cfg s) \<and> get_style s x Cursor = Str ''grab'') \<or>
        (x \<in> set (getIgnoredElements s) \<and> get_style s x Cursor = Str ''auto''))
    then Str [] else get_style s x p)"
proof (cases "cursor (cfg s)")
  case False
  then show ?thesis by (simp add: removeCursor_def)
next
  case True
  let ?s1 = "if get_style s (handle (cfg s)) Cursor = Str ''grab''
             then removeProperty (handle (cfg s)) Cursor s else s"
  have "styles_only s ?s1"
    by (simp add: removeProperty_def styles_only_set_style styles_only_refl)
  then have ig: "getIgnoredElements ?s1 = getIgnoredElements s"
    by (rule getIgnoredElements_styles_only)
  have g: "get_style ?s1 x p =
           (if p = Cursor \<and> x = handle (cfg s) \<and> get_style s x Cursor = Str ''grab''
            then Str [] else get_style s x p)" for x p
    by (auto simp add: removeProperty_def get_style_set_style)
  have "get_style (removeCursor s) x p =
        (if p = Cursor \<and> x \<in> set (getIgnoredElements s) \<and> get_style ?s1 x Cursor = Str ''auto''
         then Str [] else get_style ?s1 x p)"
    using True
    by (simp only: removeCursor_def Let_def if_True remove_loop_get_style ig)
  then show ?thesis
    using True by (simp only: g) auto
qed

lemma styles_only_eq:
  assumes "styles_only s t" and "\<And>x p. get_style t x p = get_style s x p"
  shows "t = s"
proof -
  have "styles (env t) = styles (env s)"
    using assms(2) by (intro ext) (simp add: get_style_def)
  with assms(1) have "env t = env s"
    by (simp add: styles_only_def browser.equality)
  with assms(1) show ?thesis
    by (simp add: styles_only_def state.equality)
qed

lemma removeCursor_addCursor_get_style:
  assumes "get_style s (handle (cfg s)) Cursor = Str []"
    and "\<forall>e \<in> set (getIgnoredElements s). get_style s e Cursor \<noteq> Str ''auto''"
  shows "get_style (removeCursor (addCursor s)) x p = get_style s x p"
proof -
  have c: "cfg (addCursor s) = cfg s"
    using addCursor_styles_only [of s] by (simp add: styles_only_def)
  have ig: "getIgnoredElements (addCursor s) = getIgnoredElements s"
    by (rule getIgnoredElements_styles_only [OF addCursor_styles_only])
  show ?thesis
    using assms
    by (auto simp add: removeCursor_get_style c ig addCursor_get_style)
qed

lemma example_attached_ignored:
  "getIgnoredElements (example_attached b) =
     filter (matches b ''.ignore'') (descendants_of (document b) 3)"
  by (simp add: example_attached_def movable_def Let_def example_config_def
        tick_then_addCursor_def addEventListener_mousedown_def getIgnoredElements_def
        querySelectorAll_def)

lemma example_descendants_of_handle: "descendants_of example_document 3 = [4, 5]"
  by (simp add: descendants_of_def find_element_def descendants_def example_document_def)

lemma example_attached_cfg: "cfg (example_attached b) = example_config None 0 0"
  by (simp add: example_attached_def movable_def Let_def example_config_def
        tick_then_addCursor_def addEventListener_mousedown_def)

lemma example_attached_get_style: "get_style (example_attached b) x p = styles b x p"
  by (simp add: example_attached_def movable_def Let_def example_config_def get_style_def
        tick_then_addCursor_def addEventListener_mousedown_def)

text \<open>
  Claim C9, as amended. \<^verbatim>\<open>removeCursor\<close> keeps no record of what \<^verbatim>\<open>addCursor\<close> changed: with
  the cursor option on, it clears the handle's inline cursor exactly when that is
  \<^verbatim>\<open>grab\<close> and an ignored element's exactly when that is \<^verbatim>\<open>auto\<close>, and changes nothing
  else. It undoes \<^verbatim>\<open>addCursor\<close>, giving back the very state before it, when before
  \<^verbatim>\<open>addCursor\<close> the handle had no inline cursor and no ignored element had the inline
  cursor \<^verbatim>\<open>auto\<close>. The claim as stated, that a cursor set by the host is never cleared,
  fails when the host has set one of these two values.
\<close>

theorem removeCursor_undoes_addCursor:
  assumes "get_style s (handle (cfg s)) Cursor = Str []"
    and "\<forall>e \<in> set (getIgnoredElements s). get_style s e Cursor \<noteq> Str ''auto''"
  shows "removeCursor (addCursor s) = s \<and>
         (\<forall>t x p. get_style (removeCursor t) x p =
            (if cursor (cfg t) \<and> p = Cursor \<and>
                ((x = handle (cfg t) \<and> get_style t x Cursor = Str ''grab'') \<or>
                 (x \<in> set (getIgnoredElements t) \<and> get_style t x Cursor = Str ''auto''))
             then Str [] else get_style t x p))"
proof -
  have "styles_only s (removeCursor (addCursor s))"
    by (rule styles_only_trans [OF addCursor_styles_only removeCursor_styles_only])
  then have "removeCursor (addCursor s) = s"
    by (rule styles_only_eq) (rule removeCursor_addCursor_get_style [OF assms])
  then show ?thesis
    by (simp add: removeCursor_get_style)
qed

text \<open>
  On the page without inline styles, \<^verbatim>\<open>addCursor\<close> sets \<^verbatim>\<open>grab\<close> on the handle and
  \<^verbatim>\<open>auto\<close> on the ignored element, and \<^verbatim>\<open>removeCursor\<close> gives the first state back.
\<close>

theorem removeCursor_undoes_addCursor_witness:
  "get_style (example_attached example_browser) (handle (cfg (example_attached example_browser)))
     Cursor = Str [] \<and>
   get_style (addCursor (example_attached example_browser)) 3 Cursor = Str ''grab'' \<and>
   get_style (addCursor (example_attached example_browser)) 4 Cursor = Str ''auto'' \<and>
   removeCursor (addCursor (example_attached example_browser)) = example_attached example_browser"
proof -
  let ?s = "example_attached example_browser"
  have ig: "getIgnoredElements ?s = [4]"
    by (simp add: example_attached_ignored example_descendants_of_handle example_browser_def)
  have g: "get_style ?s x Cursor = Str []" for x
    by (simp add: example_attached_get_style example_browser_def)
  have cur: "cursor (cfg ?s)" "handle (cfg ?s) = 3"
    by (simp_all add: example_attached_cfg example_config_def)
  have h1: "get_style ?s (handle (cfg ?s)) Cursor = Str []"
    by (rule g)
  have h2: "\<forall>e \<in> set (getIgnoredElements ?s). get_style ?s e Cursor \<noteq> Str ''auto''"
    by (simp add: g)
  have a3: "get_style (addCursor ?s) 3 Cursor = Str ''grab''"
    by (simp add: addCursor_get_style cur)
  have a4: "get_style (addCursor ?s) 4 Cursor = Str ''auto''"
    by (simp add: addCursor_get_style cur ig g)
  from removeCursor_undoes_addCursor [OF h1 h2] h1 a3 a4 show ?thesis by blast
qed

text \<open>
  Against claim C9 as stated. The host has set the inline cursor \<^verbatim>\<open>auto\<close> on the ignored
  element 4: \<^verbatim>\<open>addCursor\<close> leaves it as it is, \<^verbatim>\<open>removeCursor\<close> clears it. The host has
  set the inline cursor \<^verbatim>\<open>pointer\<close> on the handle: \<^verbatim>\<open>addCursor\<close> overwrites it,
  \<^verbatim>\<open>removeCursor\<close> leaves the handle without a cursor.
\<close>

theorem removeCursor_clears_host_cursor:
  "get_style (example_attached (example_styled 4 Cursor ''auto'')) 4 Cursor = Str ''auto'' \<and>
   get_style (addCursor (example_attached (example_styled 4 Cursor ''auto''))) 4 Cursor =
     Str ''auto'' \<and>
   get_style (removeCursor (addCursor (example_attached (example_styled 4 Cursor ''auto'')))) 4
     Cursor = Str [] \<and>
   get_style (example_attached (example_styled 3 Cursor ''pointer'')) 3 Cursor =
     Str ''pointer'' \<and>
   get_style (removeCursor (addCursor (example_attached (example_styled 3 Cursor ''pointer'')))) 3
     Cursor = Str []"
proof -
  let ?s = "example_attached (example_styled 4 Cursor ''auto'')"
  let ?h = "example_attached (example_styled 3 Cursor ''pointer'')"
  have ig: "getIgnoredElements ?s = [4]"
    by (simp add: example_attached_ignored example_descendants_of_handle example_styled_def
          example_browser_def)
  have c: "cfg (addCursor s) = cfg s" for s
    using addCursor_styles_only [of s] by (simp add: styles_only_def)
  have ig': "getIgnoredElements (addCursor ?s) = [4]"
    using getIgnoredElements_styles_only [OF addCursor_styles_only, of ?s] ig by simp
  have g: "get_style ?s 4 Cursor = Str ''auto''"
    by (simp add: example_attached_get_style example_styled_def example_browser_def)
  have cur: "cursor (cfg (example_attached b))" "handle (cfg (example_attached b)) = 3" for b
    by (simp_all add: example_attached_cfg example_config_def)
  have a: "get_style (addCursor ?s) 4 Cursor = Str ''auto''"
    by (simp add: addCursor_get_style cur ig g)
  have r: "get_style (removeCursor (addCursor ?s)) 4 Cursor = Str []"
    by (simp add: removeCursor_get_style c cur ig' a)
  have gh: "get_style ?h 3 Cursor = Str ''pointer''"
    by (simp add: example_attached_get_style example_styled_def example_browser_def)
  have ah: "get_style (addCursor ?h) 3 Cursor = Str ''grab''"
    by (simp add: addCursor_get_style cur)
  have rh: "get_style (removeCursor (addCursor ?h)) 3 Cursor = Str []"
    by (simp add: removeCursor_get_style c cur ah)
  from g a r gh rh show ?thesis by simp
qed

section \<open>Properties of a drag\<close>

lemma drag_frame_refl: "drag_frame s s"
  by (simp add: drag_frame_def)

lemma drag_frame_trans: "drag_frame s t \<Longrightarrow> drag_frame t u \<Longrightarrow> drag_frame s u"
  by (simp add: drag_frame_def)

lemma onMouseMove_drag_frame: "drag_frame s (onMouseMove L event s)"
  by (simp add: drag_frame_def onMouseMove_def Let_def state_ops get_style_def)

lemma mousemove_drag_frame: "drag_frame s (mousemove L event s)"
  by (simp add: mousemove_def onMouseMove_drag_frame drag_frame_refl)

lemma mousemoves_drag_frame: "drag_frame s (mousemoves ms s)"
proof (induction ms arbitrary: s)
  case Nil
  show ?case by (simp add: drag_frame_refl)
next
  case (Cons m ms)
  obtain L event where m: "m = (L, event)" by (cases m)
  have "drag_frame s (mousemove L event s)"
    by (rule mousemove_drag_frame)
  moreover have "drag_frame (mousemove L event s) (mousemoves ms (mousemove L event s))"
    by (rule Cons.IH)
  ultimately show ?case
    unfolding m mousemoves.simps by (rule drag_frame_trans)
qed


lemma end_handler_window:
  "window_mouseup (end_handler s) = False" "window_mousemove (end_handler s) = False"
  by (simp_all add: end_handler_def Let_def set_style_def removeProperty_def dispatchEvent_def)

lemma end_handler_lastNodePosition: "lastNodePosition (end_handler s) = lastNodePosition s"
  by (simp add: end_handler_def Let_def set_style_def removeProperty_def dispatchEvent_def)

lemma end_handler_userSelect:
  "get_style (end_handler s) x UserSelect = (if x = body then Str [] else get_style s x UserSelect)"
  by (simp add: end_handler_def Let_def set_style_def removeProperty_def dispatchEvent_def
        get_style_def)

lemma end_handler_cursor:
  "get_style (end_handler s) x Cursor =
     (if cursor (cfg s)
      then (if x = handle (cfg s) then Str ''grab''
            else if x = body \<and> get_style s body Cursor = Str ''grabbing'' then Str []
            else get_style s x Cursor)
      else get_style s x Cursor)"
  by (simp add: end_handler_def Let_def set_style_def removeProperty_def dispatchEvent_def
        get_style_def)

text \<open>The press handler.\<close>

lemma onMouseDown_ignored:
  "list_ex (\<lambda>n. n = target event) (getIgnoredElements s) \<Longrightarrow> onMouseDown L event s = s"
  by (simp add: onMouseDown_def Let_def)

lemma onMouseDown_dispatched:
  "\<not> list_ex (\<lambda>n. n = target event) (getIgnoredElements s) \<Longrightarrow>
   dispatched (onMouseDown L event s) =
     dispatched s @ [CustomEvent ''movablestart'' (lastNodePosition (onMouseDown L event s))]"
  by (simp add: onMouseDown_def Let_def set_style_def dispatchEvent_def
        updateLastMousePosition_def updateLastNodePosition_def)

lemma onMouseDown_window:
  assumes "\<not> list_ex (\<lambda>n. n = target event) (getIgnoredElements s)"
  shows "window_mouseup (onMouseDown L event s)" "window_mousemove (onMouseDown L event s)"
  using assms
  by (simp_all add: onMouseDown_def Let_def set_style_def dispatchEvent_def
        updateLastMousePosition_def updateLastNodePosition_def)

lemma onMouseDown_cfg: "cfg (onMouseDown L event s) = cfg s"
  by (simp add: onMouseDown_def Let_def set_style_def dispatchEvent_def
        updateLastMousePosition_def updateLastNodePosition_def)

lemma onMouseDown_userSelect:
  "\<not> list_ex (\<lambda>n. n = target event) (getIgnoredElements s) \<Longrightarrow>
   get_style (onMouseDown L event s) x UserSelect =
     (if x = body then Str ''none'' else get_style s x UserSelect)"
  by (simp add: onMouseDown_def Let_def set_style_def dispatchEvent_def get_style_def
        updateLastMousePosition_def updateLastNodePosition_def)

lemma onMouseDown_cursor:
  "\<not> list_ex (\<lambda>n. n = target event) (getIgnoredElements s) \<Longrightarrow>
   get_style (onMouseDown L event s) x Cursor =
     (if cursor (cfg s) \<and> (x = handle (cfg s) \<or> x = body) then Str ''grabbing''
      else get_style s x Cursor)"
  by (simp add: onMouseDown_def Let_def set_style_def dispatchEvent_def get_style_def
        updateLastMousePosition_def updateLastNodePosition_def)

lemma cycle_facts:
  fixes s L event ms
  defines "t \<equiv> mousemoves ms (onMouseDown L event s)"
  shows "cfg t = cfg s"
    and "get_style t x Cursor = get_style (onMouseDown L event s) x Cursor"
    and "get_style t x UserSelect = get_style (onMouseDown L event s) x UserSelect"
    and "window_mouseup t = window_mouseup (onMouseDown L event s)"
    and "dispatched t = dispatched (onMouseDown L event s)"
  using mousemoves_drag_frame [of "onMouseDown L event s" ms]
  by (simp_all add: t_def drag_frame_def onMouseDown_cfg)

lemma cycle_userSelect:
  assumes "\<not> list_ex (\<lambda>n. n = target event) (getIgnoredElements s)"
  shows "get_style (mouseup (mousemoves ms (onMouseDown L event s))) body UserSelect = Str []"
proof -
  have up: "window_mouseup (mousemoves ms (onMouseDown L event s))"
    using cycle_facts(4) [of ms L event s] onMouseDown_window(1) [OF assms] by simp
  show ?thesis
    by (simp add: up mouseup_def end_handler_userSelect)
qed

lemma cycle_cursor:
  assumes "\<not> list_ex (\<lambda>n. n = target event) (getIgnoredElements s)"
  shows "get_style (mouseup (mousemoves ms (onMouseDown L event s))) x Cursor =
           (if cursor (cfg s)
            then (if x = handle (cfg s) then Str ''grab''
                  else if x = body then Str [] else get_style s x Cursor)
            else get_style s x Cursor)"
proof -
  have up: "window_mouseup (mousemoves ms (onMouseDown L event s))"
    using cycle_facts(4) [of ms L event s] onMouseDown_window(1) [OF assms] by simp
  show ?thesis
    using cycle_facts(1,2) [of ms L event s]
    by (simp add: up mouseup_def end_handler_cursor onMouseDown_cursor [OF assms])
qed

lemma example_attached_ignored_list:
  "matches b = matches example_browser \<Longrightarrow> document b = example_document \<Longrightarrow>
   getIgnoredElements (example_attached b) = [4]"
  by (simp add: example_attached_ignored example_descendants_of_handle example_browser_def)

text \<open>
  Claim C4. After the release the body's text selection style and cursor and the handle's
  cursor are to equal their values before the press, whatever those were; the source's
  own description of the action (lines 96-98) says of the body's two styles that they are
  restored on \<^verbatim>\<open>mouseup\<close>. The code does not do that. On three pages where the host has set
  an inline style before the press on the handle, the body's \<^verbatim>\<open>user-select\<close> \<^verbatim>\<open>text\<close> is
  unset after the release, the body's cursor \<^verbatim>\<open>wait\<close> is unset after the release, and the
  handle's cursor \<^verbatim>\<open>pointer\<close> is \<^verbatim>\<open>grab\<close> after the release.
\<close>

theorem release_clears_host_styles:
  "get_style (example_attached (example_styled body UserSelect ''text'')) body UserSelect =
     Str ''text'' \<and>
   get_style
     (mouseup (mousemoves []
        (onMouseDown (example_layout (example_rect 0 0 100 100)) (example_event 0 0 3)
           (example_attached (example_styled body UserSelect ''text''))))) body UserSelect =
     Str [] \<and>
   get_style (example_attached (example_styled body Cursor ''wait'')) body Cursor =
     Str ''wait'' \<and>
   get_style
     (mouseup (mousemoves []
        (onMouseDown (example_layout (example_rect 0 0 100 100)) (example_event 0 0 3)
           (example_attached (example_styled body Cursor ''wait''))))) body Cursor =
     Str [] \<and>
   get_style (example_attached (example_styled 3 Cursor ''pointer'')) 3 Cursor =
     Str ''pointer'' \<and>
   get_style
     (mouseup (mousemoves []
        (onMouseDown (example_layout (example_rect 0 0 100 100)) (example_event 0 0 3)
           (example_attached (example_styled 3 Cursor ''pointer''))))) 3 Cursor =
     Str ''grab''"
proof -
  let ?L = "example_layout (example_rect 0 0 100 100)"
  have ig: "getIgnoredElements (example_attached (example_styled e p v)) = [4]" for e p v
    by (rule example_attached_ignored_list) (simp_all add: example_styled_def example_browser_def)
  have t: "\<not> list_ex (\<lambda>n. n = target (example_event 0 0 3))
             (getIgnoredElements (example_attached (example_styled e p v)))" for e p v
    by (simp add: ig example_event_def)
  have c: "cursor (cfg (example_attached b))" "handle (cfg (example_attached b)) = 3" for b
    by (simp_all add: example_attached_cfg example_config_def)
  have 1: "get_style (example_attached (example_styled body UserSelect ''text'')) body UserSelect =
     Str ''text''"
    by (simp add: example_attached_get_style example_styled_def)
  have 2: "get_style (example_attached (example_styled body Cursor ''wait'')) body Cursor =
     Str ''wait''"
    by (simp add: example_attached_get_style example_styled_def)
  have 3: "get_style (example_attached (example_styled 3 Cursor ''pointer'')) 3 Cursor =
     Str ''pointer''"
    by (simp add: example_attached_get_style example_styled_def)
  have 4: "get_style (mouseup (mousemoves [] (onMouseDown ?L (example_event 0 0 3)
             (example_attached (example_styled body Cursor ''wait''))))) body Cursor = Str []"
    by (simp only: cycle_cursor [OF t] c) (simp add: body_def)
  have 5: "get_style (mouseup (mousemoves [] (onMouseDown ?L (example_event 0 0 3)
             (example_attached (example_styled 3 Cursor ''pointer''))))) 3 Cursor = Str ''grab''"
    by (simp only: cycle_cursor [OF t] c) simp
  from 1 2 3 4 5 cycle_userSelect [OF t, where ms = "[]" and L = ?L]
  show ?thesis by blast
qed

text \<open>
  Claim C5. The release handler runs only as the window's \<^verbatim>\<open>mouseup\<close> listener, and it
  removes itself and the move handler from the window. So after a release neither
  listener is registered, and a \<^verbatim>\<open>mouseup\<close> that reaches the window again, while the
  instance is idle, leaves the state as it is: no style, no listener and no record of the
  instance changes, and the list of dispatched events is the same.
\<close>

theorem duplicate_mouseup_is_noop:
  "\<not> window_mouseup (end_handler s) \<and> \<not> window_mousemove (end_handler s) \<and>
   mouseup (end_handler s) = end_handler s \<and> mouseup (mouseup s) = mouseup s"
  by (simp add: mouseup_def end_handler_window)

section \<open>Properties of the life cycle\<close>

lemma movable_facts:
  "cfg (movable n c b) = c"
  "mousedown_capture (movable n c b) = (if enabled c then [handle c] else [])"
  "\<not> window_mouseup (movable n c b)"
  "\<not> window_mousemove (movable n c b)"
  "dispatched (movable n c b) = []"
  "env (movable n c b) = b"
  by (simp_all add: movable_def Let_def tick_then_addCursor_def addEventListener_mousedown_def)

lemma update_detach_facts:
  "cfg (update_detach s) = cfg s"
  "mousedown_capture (update_detach s) = removeAll (handle (cfg s)) (mousedown_capture s)"
  "window_mouseup (update_detach s) = window_mouseup s"
  "window_mousemove (update_detach s) = window_mousemove s"
  "dispatched (update_detach s) = dispatched s"
  "document (env (update_detach s)) = document (env s)"
  using removeCursor_styles_only [of s]
  by (simp_all add: update_detach_def removeEventListener_mousedown_def styles_only_def)

lemma update_attach_facts:
  "cfg (update_attach c s) = c"
  "mousedown_capture (update_attach c s) =
     (if enabled c
      then (if handle c \<in> set (mousedown_capture s) then mousedown_capture s
            else mousedown_capture s @ [handle c])
      else mousedown_capture s)"
  "window_mouseup (update_attach c s) = window_mouseup s"
  "window_mousemove (update_attach c s) = window_mousemove s"
  "dispatched (update_attach c s) = dispatched s"
  "document (env (update_attach c s)) = document (env s)"
  by (simp_all add: update_attach_def Let_def tick_then_addCursor_def
        addEventListener_mousedown_def)

lemma run_microtask_facts:
  "cfg (run_microtask s) = cfg s"
  "mousedown_capture (run_microtask s) = mousedown_capture s"
  "window_mouseup (run_microtask s) = window_mouseup s"
  "window_mousemove (run_microtask s) = window_mousemove s"
  "dispatched (run_microtask s) = dispatched s"
  "document (env (run_microtask s)) = document (env s)"
proof -
  have "cfg (run_microtask s) = cfg s \<and>
        mousedown_capture (run_microtask s) = mousedown_capture s \<and>
        window_mouseup (run_microtask s) = window_mouseup s \<and>
        window_mousemove (run_microtask s) = window_mousemove s \<and>
        dispatched (run_microtask s) = dispatched s \<and>
        document (env (run_microtask s)) = document (env s)"
  proof (cases "microtasks s")
    case 0
    then show ?thesis by (simp add: run_microtask_def)
  next
    case (Suc k)
    show ?thesis
      using addCursor_styles_only [of "s\<lparr>microtasks := k\<rparr>"] Suc
      by (simp add: run_microtask_def styles_only_def)
  qed
  then show
    "cfg (run_microtask s) = cfg s"
    "mousedown_capture (run_microtask s) = mousedown_capture s"
    "window_mouseup (run_microtask s) = window_mouseup s"
    "window_mousemove (run_microtask s) = window_mousemove s"
    "dispatched (run_microtask s) = dispatched s"
    "document (env (run_microtask s)) = document (env s)"
    by simp_all
qed

lemma idle_inv_movable: "idle_inv (movable n c b)"
  by (simp add: idle_inv_def movable_facts)

lemma update_detach_empty: "idle_inv s \<Longrightarrow> mousedown_capture (update_detach s) = []"
  by (simp add: idle_inv_def update_detach_facts)

lemma idle_inv_update: "idle_inv s \<Longrightarrow> idle_inv (update c s)"
  using update_detach_empty [of s]
  by (simp add: idle_inv_def update_def update_attach_facts update_detach_facts)

lemma idle_inv_run_microtask: "idle_inv s \<Longrightarrow> idle_inv (run_microtask s)"
  by (simp add: idle_inv_def run_microtask_facts)

lemma idle_run_facts:
  "idle_inv s \<Longrightarrow> idle_inv (idle_run steps s)"
  "cfg (idle_run steps s) = latest_config (cfg s) steps"
  "dispatched (idle_run steps s) = dispatched s"
  "document (env (idle_run steps s)) = document (env s)"
proof -
  show "idle_inv s \<Longrightarrow> idle_inv (idle_run steps s)"
    by (induction steps s rule: idle_run.induct)
       (simp_all add: idle_inv_update idle_inv_run_microtask)
  show "cfg (idle_run steps s) = latest_config (cfg s) steps"
    by (induction steps s rule: idle_run.induct)
       (simp_all add: update_def update_attach_facts run_microtask_facts)
  show "dispatched (idle_run steps s) = dispatched s"
    by (induction steps s rule: idle_run.induct)
       (simp_all add: update_def update_attach_facts update_detach_facts run_microtask_facts)
  show "document (env (idle_run steps s)) = document (env s)"
    by (induction steps s rule: idle_run.induct)
       (simp_all add: update_def update_attach_facts update_detach_facts run_microtask_facts)
qed

text \<open>
  Claim C7. After the attachment and any run of \<^verbatim>\<open>update\<close> calls while idle, with queued
  callbacks running anywhere in between, the press handler is registered exactly on the
  handle of the latest configuration when that configuration is enabled, and nowhere
  otherwise. So at most one press listener exists after every step, and none exists in
  the middle of a further \<^verbatim>\<open>update\<close>, between its removal and its registration.
\<close>

theorem one_press_listener_after_updates:
  "cfg (idle_run steps (movable n c b)) = latest_config c steps \<and>
   mousedown_capture (idle_run steps (movable n c b)) =
     (if enabled (latest_config c steps) then [handle (latest_config c steps)] else []) \<and>
   length (mousedown_capture (idle_run steps (movable n c b))) \<le> 1 \<and>
   mousedown_capture (update_detach (idle_run steps (movable n c b))) = []"
proof -
  let ?s = "idle_run steps (movable n c b)"
  have inv: "idle_inv ?s"
    by (rule idle_run_facts(1) [OF idle_inv_movable])
  have c: "cfg ?s = latest_config c steps"
    by (simp add: idle_run_facts(2) movable_facts)
  from inv have m: "mousedown_capture ?s =
      (if enabled (latest_config c steps) then [handle (latest_config c steps)] else [])"
    by (simp add: idle_inv_def c)
  from c m update_detach_empty [OF inv] show ?thesis by simp
qed

text \<open>
  Two runs on the concrete page: one ends disabled, with no listener; one moves the
  handle to the node (2), with the one listener there.
\<close>

theorem one_press_listener_after_updates_witness:
  "mousedown_capture
     (idle_run [Update ((example_config None 0 0)\<lparr>handle := 2\<rparr>), Microtask,
                Update ((example_config None 0 0)\<lparr>enabled := False\<rparr>)]
        (movable 2 (example_config None 0 0) example_browser)) = [] \<and>
   mousedown_capture
     (idle_run [Update ((example_config None 0 0)\<lparr>enabled := False\<rparr>),
                Update ((example_config None 0 0)\<lparr>handle := 2\<rparr>)]
        (movable 2 (example_config None 0 0) example_browser)) = [2]"
  using one_press_listener_after_updates
          [of "[Update ((example_config None 0 0)\<lparr>handle := 2\<rparr>), Microtask,
                Update ((example_config None 0 0)\<lparr>enabled := False\<rparr>)]"
              2 "example_config None 0 0" example_browser]
        one_press_listener_after_updates
          [of "[Update ((example_config None 0 0)\<lparr>enabled := False\<rparr>),
                Update ((example_config None 0 0)\<lparr>handle := 2\<rparr>)]"
              2 "example_config None 0 0" example_browser]
  by (simp add: example_config_def)








lemma onMouseDown_guard:
  "(onMouseDown L event s = s) = (target event \<in> set (getIgnoredElements s))"
proof
  assume e: "onMouseDown L event s = s"
  show "target event \<in> set (getIgnoredElements s)"
  proof (rule ccontr)
    assume "target event \<notin> set (getIgnoredElements s)"
    then have "\<not> list_ex (\<lambda>n. n = target event) (getIgnoredElements s)"
      by (simp add: list_ex_iff)
    from onMouseDown_dispatched [OF this, of L] e show False by simp
  qed
next
  assume "target event \<in> set (getIgnoredElements s)"
  then have "list_ex (\<lambda>n. n = target event) (getIgnoredElements s)"
    by (auto simp add: list_ex_iff)
  then show "onMouseDown L event s = s"
    by (rule onMouseDown_ignored)
qed

lemma onMouseDown_lastNodePosition:
  "\<not> list_ex (\<lambda>n. n = target event) (getIgnoredElements s) \<Longrightarrow>
   lastNodePosition (onMouseDown L event s) =
     \<lparr>pos_top = parseInt (case match_regex (getComputedStyle L (node s) ''top'') of
                            Some m \<Rightarrow> m | None \<Rightarrow> ''0''),
      pos_left = parseInt (case match_regex (getComputedStyle L (node s) ''left'') of
                             Some m \<Rightarrow> m | None \<Rightarrow> ''0'')\<rparr>"
  by (simp add: onMouseDown_def Let_def set_style_def dispatchEvent_def
        updateLastMousePosition_def updateLastNodePosition_def)

lemma parse_examples:
  "parseInt (case match_regex ''0px'' of Some m \<Rightarrow> m | None \<Rightarrow> ''0'') = 0"
  "parseInt (case match_regex ''auto'' of Some m \<Rightarrow> m | None \<Rightarrow> ''0'') = 0"
  "parseInt (case match_regex ''-12.5px'' of Some m \<Rightarrow> m | None \<Rightarrow> ''0'') = - 12"
  "parseInt (case match_regex ''450px'' of Some m \<Rightarrow> m | None \<Rightarrow> ''0'') = 450"
  by (simp_all add: match_regex_def parseInt_def digit_value_def)

lemma example_descendants_of_ignored: "descendants_of example_document 4 = [5]"
  by (simp add: descendants_of_def find_element_def descendants_def example_document_def)

text \<open>
  Claim C10. The guard of the press handler fires exactly when the target is one of the
  elements that \<^verbatim>\<open>querySelectorAll\<close> returns. A press whose target is a descendant of such
  an element, and does not match the selector itself, is not one of them: the handler
  dispatches \<^verbatim>\<open>movablestart\<close>, suppresses the text selection and registers the move and
  release handlers.
\<close>

theorem press_inside_ignored_element_starts_drag:
  assumes "ignore (cfg s) = Some sel"
    and "e \<in> set (getIgnoredElements s)"
    and "target event \<in> set (descendants_of (document (env s)) e)"
    and "\<not> matches (env s) sel (target event)"
  shows "(\<forall>L' event' s'. (onMouseDown L' event' s' = s') =
            (target event' \<in> set (getIgnoredElements s'))) \<and>
         target event \<notin> set (getIgnoredElements s) \<and>
         window_mousemove (onMouseDown L event s) \<and> window_mouseup (onMouseDown L event s) \<and>
         get_style (onMouseDown L event s) body UserSelect = Str ''none'' \<and>
         dispatched (onMouseDown L event s) =
           dispatched s @ [CustomEvent ''movablestart'' (lastNodePosition (onMouseDown L event s))]"
proof -
  have n: "target event \<notin> set (getIgnoredElements s)"
    using assms(1,4)
    by (simp add: getIgnoredElements_def querySelectorAll_def)
  then have g: "\<not> list_ex (\<lambda>n. n = target event) (getIgnoredElements s)"
    by (simp add: list_ex_iff)
  show ?thesis
    using n onMouseDown_guard onMouseDown_window [OF g, of L] onMouseDown_dispatched [OF g, of L]
      onMouseDown_userSelect [OF g, of L body]
    by simp
qed

text \<open>
  On the concrete page, element 5 lies inside the ignored element 4 and does not match
  the selector: a press on it starts a drag.
\<close>

theorem press_inside_ignored_element_starts_drag_witness:
  "4 \<in> set (getIgnoredElements (example_attached example_browser)) \<and>
   5 \<in> set (descendants_of example_document 4) \<and>
   \<not> matches example_browser ''.ignore'' 5 \<and>
   window_mouseup
     (onMouseDown (example_layout (example_rect 0 0 100 100)) (example_event 0 0 5)
        (example_attached example_browser)) \<and>
   dispatched
     (onMouseDown (example_layout (example_rect 0 0 100 100)) (example_event 0 0 5)
        (example_attached example_browser)) =
     [CustomEvent ''movablestart'' \<lparr>pos_top = 0, pos_left = 0\<rparr>]"
proof -
  let ?s = "example_attached example_browser"
  let ?L = "example_layout (example_rect 0 0 100 100)"
  let ?e = "example_event 0 0 5"
  have ig: "getIgnoredElements ?s = [4]"
    by (rule example_attached_ignored_list) (simp_all add: example_browser_def)
  have h1: "ignore (cfg ?s) = Some ''.ignore''"
    by (simp add: example_attached_cfg example_config_def)
  have h2: "4 \<in> set (getIgnoredElements ?s)"
    by (simp add: ig)
  have env: "env ?s = example_browser"
    by (simp add: example_attached_def movable_facts)
  have h3: "target ?e \<in> set (descendants_of (document (env ?s)) 4)"
    unfolding env
    by (simp add: example_browser_def example_descendants_of_ignored example_event_def)
  have h4: "\<not> matches (env ?s) ''.ignore'' (target ?e)"
    unfolding env by (simp add: example_browser_def example_event_def)
  have g: "\<not> list_ex (\<lambda>n. n = target ?e) (getIgnoredElements ?s)"
    by (simp add: ig example_event_def)
  have p: "lastNodePosition (onMouseDown ?L ?e ?s) = \<lparr>pos_top = 0, pos_left = 0\<rparr>"
    by (simp add: onMouseDown_lastNodePosition [OF g] example_layout_def parse_examples)
  have d: "dispatched ?s = []"
    by (simp add: example_attached_def movable_facts)
  from press_inside_ignored_element_starts_drag [OF h1 h2 h3 h4, of ?L]
  have "window_mouseup (onMouseDown ?L ?e ?s) \<and>
        dispatched (onMouseDown ?L ?e ?s) =
          [CustomEvent ''movablestart'' \<lparr>pos_top = 0, pos_left = 0\<rparr>]"
    by (simp add: p d)
  moreover have "5 \<in> set (descendants_of example_document 4)"
    by (simp add: example_descendants_of_ignored)
  moreover have "\<not> matches example_browser ''.ignore'' 5"
    by (simp add: example_browser_def)
  ultimately show ?thesis using h2 by blast
qed


section \<open>Properties of the move handler in double arithmetic\<close>

text \<open>Rounding to a double, at a number whose exponent is known.\<close>

lemma round_even_of_int: "round_even (of_int n) = n"
  by (simp add: round_even_def)

lemma bitlen_unique:
  fixes y :: real and a :: nat
  assumes "2 ^ a \<le> y" and "y < 2 ^ (a + 1)"
  shows "bitlen \<lfloor>y\<rfloor> = int a + 1"
proof -
  have y1: "1 \<le> y"
    using assms(1) one_le_power [of "2::real" a] by linarith
  then have n: "0 < \<lfloor>y\<rfloor>" by simp
  let ?b = "nat (bitlen \<lfloor>y\<rfloor> - 1)"
  from bitlen_bounds [OF n]
  have lo: "(2::int) ^ ?b \<le> \<lfloor>y\<rfloor>" and hi: "\<lfloor>y\<rfloor> < 2 ^ nat (bitlen \<lfloor>y\<rfloor>)"
    by simp_all
  have bl: "1 \<le> bitlen \<lfloor>y\<rfloor>"
    using n bitlen_eq_zero_iff [of "\<lfloor>y\<rfloor>"] bitlen_nonneg [of "\<lfloor>y\<rfloor>"] by linarith
  then have nb: "nat (bitlen \<lfloor>y\<rfloor>) = ?b + 1" by simp
  have "real_of_int ((2::int) ^ ?b) \<le> real_of_int \<lfloor>y\<rfloor>"
    using lo by (simp only: of_int_le_iff)
  moreover have "real_of_int ((2::int) ^ ?b) = (2::real) ^ ?b"
    by simp
  ultimately have "(2::real) ^ ?b \<le> y"
    using of_int_floor_le [of y] by linarith
  with assms(2) have "(2::real) ^ ?b < 2 ^ (a + 1)" by linarith
  then have 1: "?b < a + 1" by (rule power_less_imp_less_exp [rotated]) simp
  have "\<lfloor>y\<rfloor> + 1 \<le> 2 ^ (?b + 1)"
    using hi nb by simp
  then have "real_of_int (\<lfloor>y\<rfloor> + 1) \<le> real_of_int (2 ^ (?b + 1))"
    by (simp only: of_int_le_iff)
  moreover have "real_of_int ((2::int) ^ (?b + 1)) = (2::real) ^ (?b + 1)"
    by simp
  moreover have "y < real_of_int (\<lfloor>y\<rfloor> + 1)"
    using floor_correct [of y] by simp
  ultimately have "y < 2 ^ (?b + 1)"
    by linarith
  with assms(1) have "(2::real) ^ a < 2 ^ (?b + 1)" by linarith
  then have 2: "a < ?b + 1" by (rule power_less_imp_less_exp [rotated]) simp
  from 1 2 have "?b = a" by simp
  with bl show ?thesis by simp
qed

lemma powi_times_power:
  fixes c :: nat
  assumes "0 \<le> k + int c"
  shows "(2::real) powi k * 2 ^ c = 2 ^ nat (k + int c)"
proof -
  have "(2::real) powi k * 2 ^ c = 2 powi k * 2 powi (int c)"
    by simp
  also have "\<dots> = 2 powi (k + int c)"
    by (simp add: power_int_add)
  also have "\<dots> = 2 ^ nat (k + int c)"
    using assms by (simp add: power_int_def)
  finally show ?thesis .
qed

lemma scaled_bracket:
  fixes c :: nat and y :: real
  assumes "0 \<le> k + int c" and "2 powi k \<le> y" and "y < 2 powi (k + 1)"
  shows "2 ^ nat (k + int c) \<le> y * 2 ^ c" and "y * 2 ^ c < 2 ^ (nat (k + int c) + 1)"
proof -
  have pos: "(0::real) < 2 ^ c" by simp
  have "2 powi k * 2 ^ c \<le> y * 2 ^ c"
    using assms(2) pos by (simp only: mult_le_cancel_right_pos)
  then show "2 ^ nat (k + int c) \<le> y * 2 ^ c"
    by (simp only: powi_times_power [OF assms(1)])
  have k1: "0 \<le> k + 1 + int c" using assms(1) by simp
  have n: "nat (k + 1 + int c) = nat (k + int c) + 1"
    using assms(1) by simp
  have "y * 2 ^ c < 2 powi (k + 1) * 2 ^ c"
    using assms(3) pos by (simp only: mult_less_cancel_right_pos)
  then show "y * 2 ^ c < 2 ^ (nat (k + int c) + 1)"
    by (simp only: powi_times_power [OF k1] n)
qed

lemma ulp_exponent_eq:
  assumes "- 1074 \<le> e" and "2 powi (e + 52) \<le> \<bar>x\<bar>" and "\<bar>x\<bar> < 2 powi (e + 53)"
  shows "ulp_exponent x = e"
proof -
  have k: "0 \<le> e + 52 + int 1074" using assms(1) by simp
  have hi: "\<bar>x\<bar> < 2 powi (e + 52 + 1)"
    using assms(3) by (simp add: add.assoc)
  have "bitlen \<lfloor>\<bar>x\<bar> * 2 ^ 1074\<rfloor> = int (nat (e + 52 + int 1074)) + 1"
    by (rule bitlen_unique [OF scaled_bracket [OF k assms(2) hi]])
  then have "ulp_exponent x = max (int (nat (e + 52 + int 1074)) + 1 - 1 - 1074 - 52) (- 1074)"
    by (simp only: ulp_exponent_def)
  then show ?thesis
    using assms(1) by simp
qed

lemma round_double_at:
  assumes "- 1074 \<le> e" and "2 powi (e + 52) \<le> \<bar>x\<bar>" and "\<bar>x\<bar> < 2 powi (e + 53)"
    and "round_even (x / 2 powi e) = m"
  shows "round_double x = of_int m * 2 powi e"
  by (simp add: round_double_def ulp_exponent_eq [OF assms(1-3)] assms(4))

lemma round_double_zero: "round_double 0 = 0"
  by (simp add: round_double_def round_even_def)

text \<open>A whole number of magnitude below \<open>2 ^ 53\<close> is a double.\<close>

lemma round_double_int:
  assumes "x \<in> \<int>" and "\<bar>x\<bar> < 2 ^ 53"
  shows "round_double x = x"
proof (cases "x = 0")
  case True
  then show ?thesis by (simp add: round_double_zero)
next
  case False
  from assms(1) obtain z where z: "x = of_int z" by (auto elim: Ints_cases)
  with False have zpos: "0 < \<bar>z\<bar>" by simp
  define j where "j = nat (bitlen \<bar>z\<bar> - 1)"
  from bitlen_bounds [OF zpos]
  have lo: "2 ^ j \<le> \<bar>z\<bar>" and hi: "\<bar>z\<bar> < 2 ^ nat (bitlen \<bar>z\<bar>)"
    by (simp_all add: j_def)
  have bl: "1 \<le> bitlen \<bar>z\<bar>"
    using zpos bitlen_eq_zero_iff [of "\<bar>z\<bar>"] bitlen_nonneg [of "\<bar>z\<bar>"] by linarith
  then have nb: "nat (bitlen \<bar>z\<bar>) = j + 1" by (simp add: j_def)
  have ax: "\<bar>x\<bar> = real_of_int \<bar>z\<bar>" by (simp add: z)
  have "real_of_int (2 ^ j) \<le> real_of_int \<bar>z\<bar>"
    using lo by (simp only: of_int_le_iff)
  then have rlo: "(2::real) ^ j \<le> \<bar>x\<bar>"
    by (simp add: ax)
  have "real_of_int \<bar>z\<bar> < real_of_int (2 ^ (j + 1))"
    using hi nb by (simp only: of_int_less_iff)
  then have rhi: "\<bar>x\<bar> < (2::real) ^ (j + 1)"
    by (simp add: ax)
  from rlo assms(2) have "(2::real) ^ j < 2 ^ 53" by linarith
  then have "j < 53" by (rule power_less_imp_less_exp [rotated]) simp
  then have j: "j \<le> 52" by simp
  define k where "k = 52 - j"
  define e where "e = - int k"
  have e: "- 1074 \<le> e" using j by (simp add: e_def k_def)
  have "e + 52 = int j" using j by (simp add: e_def k_def)
  then have "(2::real) powi (e + 52) = 2 ^ j"
    by (simp only: power_int_of_nat)
  then have b1: "2 powi (e + 52) \<le> \<bar>x\<bar>"
    using rlo by (simp only:)
  have "e + 53 = int (j + 1)" using j by (simp add: e_def k_def)
  then have "(2::real) powi (e + 53) = 2 ^ (j + 1)"
    by (simp only: power_int_of_nat)
  then have b2: "\<bar>x\<bar> < 2 powi (e + 53)"
    using rhi by (simp only:)
  have p: "(2::real) powi e = inverse (2 ^ k)"
    by (simp only: e_def power_int_minus power_int_of_nat)
  have "x / 2 powi e = of_int (z * 2 ^ k)"
    by (simp add: p z divide_inverse)
  then have r: "round_even (x / 2 powi e) = z * 2 ^ k"
    by (simp only: round_even_of_int)
  have "round_double x = of_int (z * 2 ^ k) * 2 powi e"
    by (rule round_double_at [OF e b1 b2 r])
  also have "\<dots> = x"
    by (simp add: p z)
  finally show ?thesis .
qed

lemma round_double_exact:
  assumes "x \<in> \<int>" and "- 9007199254740992 < x" and "x < 9007199254740992"
  shows "round_double x = x"
  using assms by (intro round_double_int) (simp_all add: abs_less_iff)

lemma whole_Ints: "whole x \<Longrightarrow> x \<in> \<int>"
  by (metis Ints_of_int whole_def)


lemma whole_parts:
  assumes "whole x"
  shows "x \<in> \<int>" and "- 16777216 \<le> x" and "x \<le> 16777216"
  using assms whole_Ints [of x] by (simp_all add: whole_def)








lemma onMouseMove_double_left_free:
  assumes "parent (cfg s) = None"
  shows "pos_left (lastNodePosition (onMouseMove_double L event s)) =
           free_axis_double (pos_left (lastNodePosition s)) (clientX event)
             (pos_x (lastMousePosition s)) (sum_dx s)
             (boundX_double (normalizedDelta (cfg s)) (getBoundingClientRect L (node s)))"
  using assms
  by (simp add: onMouseMove_double_def Let_def state_ops free_axis_double_def)

lemma onMouseMove_double_top_free:
  assumes "parent (cfg s) = None"
  shows "pos_top (lastNodePosition (onMouseMove_double L event s)) =
           free_axis_double (pos_top (lastNodePosition s)) (clientY event)
             (pos_y (lastMousePosition s)) (sum_dy s)
             (boundY_double (normalizedDelta (cfg s)) (getBoundingClientRect L (node s)))"
  using assms
  by (simp add: onMouseMove_double_def Let_def state_ops free_axis_double_def)

lemma onMouseMove_double_sum_dx:
  "sum_dx (onMouseMove_double L event s) =
     round_double
       (sum_dx s +
        round_double
          (pos_left (lastNodePosition (onMouseMove_double L event s)) -
           pos_left (lastNodePosition s)))"
  by (simp add: onMouseMove_double_def Let_def state_ops)

lemma onMouseMove_double_sum_dy:
  "sum_dy (onMouseMove_double L event s) =
     round_double
       (sum_dy s +
        round_double
          (pos_top (lastNodePosition (onMouseMove_double L event s)) -
           pos_top (lastNodePosition s)))"
  by (simp add: onMouseMove_double_def Let_def state_ops)

lemma onMouseMove_double_frame:
  "cfg (onMouseMove_double L event s) = cfg s"
  "node (onMouseMove_double L event s) = node s"
  "lastMousePosition (onMouseMove_double L event s) =
     \<lparr>pos_x = clientX event, pos_y = clientY event\<rparr>"
  by (simp_all add: onMouseMove_double_def Let_def state_ops)



lemma free_axis_double_exact:
  assumes "whole cur" "whole pointer" "whole lastPointer" "whole acc" "whole bound"
    and "0 < bound"
  shows "\<bar>round_double
            (acc +
             round_double (free_axis_double cur pointer lastPointer acc bound - cur))\<bar> \<le> bound"
  using assms(1-5) [THEN whole_parts(1)] assms(1-5) [THEN whole_parts(2)]
    assms(1-5) [THEN whole_parts(3)] assms(6)
  by (auto simp add: free_axis_double_def Let_def round_double_exact)



text \<open>The error of one rounding, and of the roundings of one axis of a move.\<close>

lemma min_double_pos: "0 < min_double"
  by (simp add: min_double_def)

lemma round_even_error: "\<bar>of_int (round_even y) - y\<bar> \<le> 1 / 2"
proof -
  have "of_int \<lfloor>y\<rfloor> \<le> y" "y < of_int \<lfloor>y\<rfloor> + 1"
    by linarith+
  then show ?thesis
    by (auto simp add: round_even_def Let_def abs_le_iff)
qed

lemma round_double_step:
  "\<bar>round_double x - x\<bar> \<le> 2 powi ulp_exponent x / 2"
proof -
  define p :: real where "p = 2 powi ulp_exponent x"
  have p: "0 < p" by (simp add: p_def)
  have "round_double x - x = (of_int (round_even (x / p)) - x / p) * p"
    using p by (simp add: round_double_def p_def algebra_simps)
  then have "\<bar>round_double x - x\<bar> = \<bar>of_int (round_even (x / p)) - x / p\<bar> * p"
    using p by (simp add: abs_mult)
  also have "\<dots> \<le> 1 / 2 * p"
    using round_even_error [of "x / p"] p by (intro mult_right_mono) simp_all
  finally show ?thesis by (simp add: p_def)
qed

lemma ulp_exponent_cases:
  "ulp_exponent x = - 1074 \<or> 2 powi (ulp_exponent x + 52) \<le> \<bar>x\<bar>"
proof (cases "ulp_exponent x = - 1074")
  case True
  then show ?thesis by simp
next
  case False
  define c :: nat where "c = 1074"
  define n where "n = \<lfloor>\<bar>x\<bar> * 2 ^ c\<rfloor>"
  define e where "e = ulp_exponent x"
  have e: "e = max (bitlen n - 1 - int c - 52) (- int c)"
    by (simp add: e_def ulp_exponent_def n_def c_def)
  from False have "e \<noteq> - int c" by (simp add: e_def c_def)
  with e have e': "e = bitlen n - 1 - int c - 52" and gt: "- int c < e"
    by linarith+
  then have bl: "0 < bitlen n" by linarith
  then have npos: "0 < n"
    using bitlen_eq_zero_iff [of n] bitlen_nonneg [of n] by (cases "n \<le> 0") simp_all
  from bitlen_bounds [OF npos] have "(2::int) ^ nat (bitlen n - 1) \<le> n" by simp
  then have "real_of_int ((2::int) ^ nat (bitlen n - 1)) \<le> real_of_int n"
    by (simp only: of_int_le_iff)
  then have a: "(2::real) ^ nat (bitlen n - 1) \<le> real_of_int n"
    by (simp only: of_int_power of_int_numeral)
  have b: "real_of_int n \<le> \<bar>x\<bar> * 2 ^ c"
    unfolding n_def by (rule of_int_floor_le)
  from a b have 1: "(2::real) ^ nat (bitlen n - 1) \<le> \<bar>x\<bar> * 2 ^ c"
    by (rule order_trans)
  have k: "bitlen n - 1 = (e + 52) + int c" using e' by simp
  have nn: "0 \<le> (e + 52) + int c" using gt by simp
  have "(2::real) powi (e + 52) * 2 ^ c = 2 ^ nat ((e + 52) + int c)"
    by (rule powi_times_power [OF nn])
  with 1 k have "(2::real) powi (e + 52) * 2 ^ c \<le> \<bar>x\<bar> * 2 ^ c"
    by simp
  then have "(2::real) powi (e + 52) \<le> \<bar>x\<bar>"
    by (simp only: mult_le_cancel_right_pos zero_less_power zero_less_numeral)
  then show ?thesis by (simp add: e_def)
qed

lemma round_double_error:
  "\<bar>round_double x - x\<bar> \<le> \<bar>x\<bar> / 2 ^ 53 + min_double"
proof -
  define e where "e = ulp_exponent x"
  have s: "\<bar>round_double x - x\<bar> \<le> 2 powi e / 2"
    unfolding e_def by (rule round_double_step)
  from ulp_exponent_cases [of x]
  consider "e = - 1074" | "2 powi (e + 52) \<le> \<bar>x\<bar>"
    unfolding e_def by blast
  then show ?thesis
  proof cases
    case 1
    have "(2::real) powi e = min_double"
      by (simp only: 1 min_double_def)
    moreover have "0 \<le> \<bar>x\<bar> / 2 ^ 53" by simp
    ultimately show ?thesis
      using s min_double_pos by linarith
  next
    case 2
    have "(2::real) powi (e + 52) = 2 powi e * 2 ^ 52"
      by (simp add: power_int_add)
    with 2 have "2 powi e * 2 ^ 52 \<le> \<bar>x\<bar>" by simp
    then have "2 powi e / 2 \<le> \<bar>x\<bar> / 2 ^ 53"
      by (simp add: field_simps)
    with s min_double_pos show ?thesis by linarith
  qed
qed


lemma round_double_near:
  assumes "- B \<le> x" and "x \<le> B"
  shows "x - (B / 2 ^ 53 + min_double) \<le> round_double x"
    and "round_double x \<le> x + (B / 2 ^ 53 + min_double)"
proof -
  have "\<bar>x\<bar> \<le> B" using assms by (simp add: abs_le_iff)
  then have "\<bar>x\<bar> / 2 ^ 53 \<le> B / 2 ^ 53"
    by (simp add: divide_right_mono)
  with round_double_error [of x]
  have "\<bar>round_double x - x\<bar> \<le> B / 2 ^ 53 + min_double" by linarith
  then show "x - (B / 2 ^ 53 + min_double) \<le> round_double x"
    and "round_double x \<le> x + (B / 2 ^ 53 + min_double)"
    by (simp_all add: abs_le_iff)
qed

lemma free_axis_double_slack:
  assumes "0 < bound"
  shows "\<bar>round_double
            (acc +
             round_double (free_axis_double cur pointer lastPointer acc bound - cur))\<bar>
         \<le> bound + rounding_slack (\<bar>acc\<bar> + \<bar>cur\<bar> + \<bar>pointer - lastPointer\<bar> + bound)"
proof -
  define a where "a = \<bar>acc\<bar>"
  define c where "c = \<bar>cur\<bar>"
  define m where "m = \<bar>pointer - lastPointer\<bar>"
  define h where "h = min_double"
  define B where "B = 8 * a + 8 * c + 8 * m + 8 * bound + 16 * h"
  define eps where "eps = B / 2 ^ 53 + h"
  have pos: "0 \<le> a" "0 \<le> c" "0 \<le> m" "0 < h"
    by (simp_all add: a_def c_def m_def h_def min_double_pos)
  have inp: "- a \<le> acc" "acc \<le> a" "- c \<le> cur" "cur \<le> c"
    "- m \<le> pointer - lastPointer" "pointer - lastPointer \<le> m"
    by (simp_all add: a_def c_def m_def abs_le_iff [symmetric])
  have eps: "0 < eps" "8 * eps \<le> 4 * a + 4 * c + 4 * m + 4 * bound + 9 * h"
    "6 * eps \<le> (a + c + m + bound) / 2 ^ 47 + 16 * h"
    using pos assms by (simp_all add: eps_def B_def field_simps)
  have B: "B = 8 * a + 8 * c + 8 * m + 8 * bound + 16 * h" by (rule B_def)
  note rd = round_double_near [where B = B, folded h_def, folded eps_def]
  let ?d = "round_double (pointer - lastPointer)"
  let ?cand = "round_double (cur + ?d)"
  let ?t = "round_double (acc + ?cand)"
  let ?n = "round_double (?t - cur)"
  have d: "pointer - lastPointer - eps \<le> ?d" "?d \<le> pointer - lastPointer + eps"
    by - (rule rd(1) rd(2); use pos inp assms eps B in linarith)+
  have cand: "cur + ?d - eps \<le> ?cand" "?cand \<le> cur + ?d + eps"
    by - (rule rd(1) rd(2); use pos inp assms eps B d in linarith)+
  have t: "acc + ?cand - eps \<le> ?t" "?t \<le> acc + ?cand + eps"
    by - (rule rd(1) rd(2); use pos inp assms eps B d cand in linarith)+
  have n: "?t - cur - eps \<le> ?n" "?n \<le> ?t - cur + eps"
    by - (rule rd(1) rd(2); use pos inp assms eps B d cand t in linarith)+
  have goal: "\<bar>round_double
            (acc +
             round_double (free_axis_double cur pointer lastPointer acc bound - cur))\<bar>
         \<le> bound + 6 * eps"
  proof (cases "?n > bound")
    case True
    let ?x = "round_double (?n - bound)"
    let ?l = "round_double (?cand - ?x)"
    let ?r = "round_double (?l - cur)"
    let ?s = "round_double (acc + ?r)"
    have f: "free_axis_double cur pointer lastPointer acc bound = ?l"
      using True assms by (simp add: free_axis_double_def Let_def)
    have x: "?n - bound - eps \<le> ?x" "?x \<le> ?n - bound + eps"
      by - (rule rd(1) rd(2); use pos inp assms eps B d cand t n in linarith)+
    have l: "?cand - ?x - eps \<le> ?l" "?l \<le> ?cand - ?x + eps"
      by - (rule rd(1) rd(2); use pos inp assms eps B d cand t n x in linarith)+
    have r: "?l - cur - eps \<le> ?r" "?r \<le> ?l - cur + eps"
      by - (rule rd(1) rd(2); use pos inp assms eps B d cand t n x l in linarith)+
    have s: "acc + ?r - eps \<le> ?s" "?s \<le> acc + ?r + eps"
      by - (rule rd(1) rd(2); use pos inp assms eps B d cand t n x l r in linarith)+
    have "\<bar>?s\<bar> \<le> bound + 6 * eps"
      using t n x l r s eps(1) assms by (simp only: abs_le_iff) linarith
    then show ?thesis by (simp only: f)
  next
    case False
    show ?thesis
    proof (cases "?n < - bound")
      case True
      let ?x = "round_double (?n + bound)"
      let ?l = "round_double (?cand - ?x)"
      let ?r = "round_double (?l - cur)"
      let ?s = "round_double (acc + ?r)"
      have f: "free_axis_double cur pointer lastPointer acc bound = ?l"
        using True False assms by (simp add: free_axis_double_def Let_def)
      have x: "?n + bound - eps \<le> ?x" "?x \<le> ?n + bound + eps"
        by - (rule rd(1) rd(2); use pos inp assms eps B d cand t n in linarith)+
      have l: "?cand - ?x - eps \<le> ?l" "?l \<le> ?cand - ?x + eps"
        by - (rule rd(1) rd(2); use pos inp assms eps B d cand t n x in linarith)+
      have r: "?l - cur - eps \<le> ?r" "?r \<le> ?l - cur + eps"
        by - (rule rd(1) rd(2); use pos inp assms eps B d cand t n x l in linarith)+
      have s: "acc + ?r - eps \<le> ?s" "?s \<le> acc + ?r + eps"
        by - (rule rd(1) rd(2); use pos inp assms eps B d cand t n x l r in linarith)+
      have "\<bar>?s\<bar> \<le> bound + 6 * eps"
        using t n x l r s eps(1) assms by (simp only: abs_le_iff) linarith
      then show ?thesis by (simp only: f)
    next
      case F2: False
      let ?r = "round_double (?cand - cur)"
      let ?s = "round_double (acc + ?r)"
      have f: "free_axis_double cur pointer lastPointer acc bound = ?cand"
        using False F2 assms by (simp add: free_axis_double_def Let_def)
      have r: "?cand - cur - eps \<le> ?r" "?r \<le> ?cand - cur + eps"
        by - (rule rd(1) rd(2); use pos inp assms eps B d cand t n in linarith)+
      have s: "acc + ?r - eps \<le> ?s" "?s \<le> acc + ?r + eps"
        by - (rule rd(1) rd(2); use pos inp assms eps B d cand t n r in linarith)+
      have "\<bar>?s\<bar> \<le> bound + 6 * eps"
        using t n r s eps(1) assms False F2 by (simp only: abs_le_iff) linarith
      then show ?thesis by (simp only: f)
    qed
  qed
  show ?thesis
    unfolding rounding_slack_def a_def [symmetric] c_def [symmetric] m_def [symmetric]
      h_def [symmetric]
    using goal eps(3) by linarith
qed








text \<open>One axis of a move, with the slack that its numbers call for.\<close>

lemma free_axis_double_bound:
  assumes "0 < bound"
  shows "\<bar>round_double
            (acc +
             round_double (free_axis_double cur pointer lastPointer acc bound - cur))\<bar>
         \<le> bound + free_slack cur pointer lastPointer acc bound"
proof (cases "whole cur \<and> whole pointer \<and> whole lastPointer \<and> whole acc \<and> whole bound")
  case True
  then have "free_slack cur pointer lastPointer acc bound = 0"
    by (simp add: free_slack_def)
  moreover have "\<bar>round_double
            (acc +
             round_double (free_axis_double cur pointer lastPointer acc bound - cur))\<bar>
         \<le> bound"
    using True assms by (intro free_axis_double_exact) simp_all
  ultimately show ?thesis by simp
next
  case False
  then have "free_slack cur pointer lastPointer acc bound =
      rounding_slack (\<bar>acc\<bar> + \<bar>cur\<bar> + \<bar>pointer - lastPointer\<bar> + bound)"
    by (simp only: free_slack_def if_False)
  with free_axis_double_slack [OF assms] show ?thesis by simp
qed


text \<open>The roundings of the examples below.\<close>

lemma round_double_c2:
  "round_double (5001 / 100) = 7038281792649953 / 140737488355328"
  "round_double (81 / 4) = 81 / 4"
  "round_double (4188347653454561 / 140737488355328) = 4188347653454561 / 140737488355328"
  "round_double (7038281792649953 / 140737488355328) = 7038281792649953 / 140737488355328"
  "round_double (9888215931845345 / 140737488355328) = 309006747870167 / 4398046511104"
  "round_double (219946306020311 / 4398046511104) = 219946306020311 / 4398046511104"
  "round_double (43980465111 / 4398046511104) = 43980465111 / 4398046511104"
  "round_double (7036874417766401 / 140737488355328) = 7036874417766401 / 140737488355328"
  "round_double (4186940278571009 / 140737488355328) = 4186940278571009 / 140737488355328"
proof -
  show "round_double (5001 / 100) = 7038281792649953 / 140737488355328"
    by (rule trans [OF round_double_at [where e = "- 47" and m = "7038281792649953"]])
       (simp_all add: round_even_def)
  show "round_double (81 / 4) = 81 / 4"
    by (rule trans [OF round_double_at [where e = "- 48" and m = "5699868278390784"]])
       (simp_all add: round_even_def)
  show "round_double (4188347653454561 / 140737488355328) = 4188347653454561 / 140737488355328"
    by (rule trans [OF round_double_at [where e = "- 48" and m = "8376695306909122"]])
       (simp_all add: round_even_def)
  show "round_double (7038281792649953 / 140737488355328) = 7038281792649953 / 140737488355328"
    by (rule trans [OF round_double_at [where e = "- 47" and m = "7038281792649953"]])
       (simp_all add: round_even_def)
  show "round_double (9888215931845345 / 140737488355328) = 309006747870167 / 4398046511104"
    by (rule trans [OF round_double_at [where e = "- 46" and m = "4944107965922672"]])
       (simp_all add: round_even_def)
  show "round_double (219946306020311 / 4398046511104) = 219946306020311 / 4398046511104"
    by (rule trans [OF round_double_at [where e = "- 47" and m = "7038281792649952"]])
       (simp_all add: round_even_def)
  show "round_double (43980465111 / 4398046511104) = 43980465111 / 4398046511104"
    by (rule trans [OF round_double_at [where e = "- 59" and m = "5764607523028992"]])
       (simp_all add: round_even_def)
  show "round_double (7036874417766401 / 140737488355328) = 7036874417766401 / 140737488355328"
    by (rule trans [OF round_double_at [where e = "- 47" and m = "7036874417766401"]])
       (simp_all add: round_even_def)
  show "round_double (4186940278571009 / 140737488355328) = 4186940278571009 / 140737488355328"
    by (rule trans [OF round_double_at [where e = "- 48" and m = "8373880557142018"]])
       (simp_all add: round_even_def)
qed



text \<open>The concrete page, by its selectors.\<close>

lemma example_event_sel:
  "clientX (example_event x y t) = x"
  "clientY (example_event x y t) = y"
  "target (example_event x y t) = t"
  by (simp_all add: example_event_def)

lemma example_layout_at_sel:
  "getBoundingClientRect (example_layout_at box l t) 2 = box"
  "innerWidth (example_layout_at box l t) = 500"
  "innerHeight (example_layout_at box l t) = 500"
  "getComputedStyle (example_layout_at box l t) e ''left'' = l"
  "getComputedStyle (example_layout_at box l t) e ''top'' = t"
  "getComputedStyle (example_layout_at box l t) e ''position'' = ''relative''"
  by (simp_all add: example_layout_at_def)

lemma example_state_sel:
  "cfg (example_state c t l) = c"
  "node (example_state c t l) = 2"
  "lastMousePosition (example_state c t l) = \<lparr>pos_x = 0, pos_y = 0\<rparr>"
  "lastNodePosition (example_state c t l) = \<lparr>pos_top = t, pos_left = l\<rparr>"
  "sum_dx (example_state c t l) = 0"
  "sum_dy (example_state c t l) = 0"
  by (simp_all add: example_state_def)

lemma example_config_sel:
  "parent (example_config par lx ly) = par"
  "normalizedDelta (example_config par lx ly) =
     \<lparr>delta_x = \<lparr>axis_unit = Px, axis_value = lx\<rparr>,
      delta_y = \<lparr>axis_unit = Px, axis_value = ly\<rparr>\<rparr>"
  "handle (example_config par lx ly) = 3"
  "ignore (example_config par lx ly) = Some ''.ignore''"
  by (simp_all add: example_config_def)

lemma example_rect_sel:
  "rect_top (example_rect t l w h) = t"
  "rect_bottom (example_rect t l w h) = t + h"
  "rect_left (example_rect t l w h) = l"
  "rect_right (example_rect t l w h) = l + w"
  "rect_width (example_rect t l w h) = w"
  "rect_height (example_rect t l w h) = h"
  by (simp_all add: example_rect_def)

lemmas example_sel = example_layout_at_sel example_state_sel example_config_sel example_event_sel
  example_rect_sel







text \<open>
  Claim C2, as amended. The cumulative displacements are zero when the action is
  attached. With no boundary and strictly positive bounds on both axes, after a move from
  any state their absolute values are at most the bounds, up to the rounding of the
  handler's arithmetic: on an axis where the numbers the move reads (the pointer's
  coordinate, the recorded pointer and node positions, the cumulative displacement
  before the move and the bound) are whole numbers of magnitude at most \<open>2 ^ 24\<close>, the
  absolute value is at most the bound; on other numbers it exceeds the bound by at most
  the rounding slack of the sum of their magnitudes. The claim as stated, with no slack,
  fails: a rounded sum can exceed the bound.
\<close>

theorem mode_b_double_cumulative_within_bound:
  assumes "parent (cfg s) = None"
    and "0 < boundX_double (normalizedDelta (cfg s)) (getBoundingClientRect L (node s))"
    and "0 < boundY_double (normalizedDelta (cfg s)) (getBoundingClientRect L (node s))"
    and "move_in_range L event s"
  shows "sum_dx (movable n c b) = 0 \<and> sum_dy (movable n c b) = 0 \<and>
         \<bar>sum_dx (onMouseMove_double L event s)\<bar> \<le>
           boundX_double (normalizedDelta (cfg s)) (getBoundingClientRect L (node s)) +
           free_slack_x L event s \<and>
         \<bar>sum_dy (onMouseMove_double L event s)\<bar> \<le>
           boundY_double (normalizedDelta (cfg s)) (getBoundingClientRect L (node s)) +
           free_slack_y L event s"
proof -
  have x: "\<bar>sum_dx (onMouseMove_double L event s)\<bar> \<le>
           boundX_double (normalizedDelta (cfg s)) (getBoundingClientRect L (node s)) +
           free_slack_x L event s"
    unfolding onMouseMove_double_sum_dx onMouseMove_double_left_free [OF assms(1)]
      free_slack_x_def
    by (rule free_axis_double_bound [OF assms(2)])
  have y: "\<bar>sum_dy (onMouseMove_double L event s)\<bar> \<le>
           boundY_double (normalizedDelta (cfg s)) (getBoundingClientRect L (node s)) +
           free_slack_y L event s"
    unfolding onMouseMove_double_sum_dy onMouseMove_double_top_free [OF assms(1)]
      free_slack_y_def
    by (rule free_axis_double_bound [OF assms(3)])
  have "sum_dx (movable n c b) = 0" "sum_dy (movable n c b) = 0"
    by (simp_all add: movable_def Let_def tick_then_addCursor_def addEventListener_mousedown_def)
  with x y show ?thesis by simp
qed

text \<open>
  No boundary, bounds 50 and 30 pixels, one move by (+80, -100) from the origin: all
  numbers are whole, there is no slack, and the cumulative displacements are within 50
  and 30.
\<close>

theorem mode_b_double_cumulative_within_bound_witness:
  "parent (cfg (example_state (example_config None 50 30) 0 0)) = None \<and>
   move_in_range (example_layout (example_rect 0 0 100 100)) (example_event 80 (- 100) 3)
     (example_state (example_config None 50 30) 0 0) \<and>
   free_slack_x (example_layout (example_rect 0 0 100 100)) (example_event 80 (- 100) 3)
     (example_state (example_config None 50 30) 0 0) = 0 \<and>
   free_slack_y (example_layout (example_rect 0 0 100 100)) (example_event 80 (- 100) 3)
     (example_state (example_config None 50 30) 0 0) = 0 \<and>
   \<bar>sum_dx (onMouseMove_double (example_layout (example_rect 0 0 100 100))
            (example_event 80 (- 100) 3)
            (example_state (example_config None 50 30) 0 0))\<bar> \<le> 50 \<and>
   \<bar>sum_dy (onMouseMove_double (example_layout (example_rect 0 0 100 100))
            (example_event 80 (- 100) 3)
            (example_state (example_config None 50 30) 0 0))\<bar> \<le> 30"
proof -
  let ?L = "example_layout (example_rect 0 0 100 100)"
  let ?s = "example_state (example_config None 50 30) 0 0"
  let ?e = "example_event 80 (- 100) 3"
  have p: "parent (cfg ?s) = None"
    by (simp add: example_sel)
  have r: "move_in_range ?L ?e ?s"
    by (simp add: move_in_range_def in_range_def example_defs)
  have mx: "boundX_double (normalizedDelta (cfg ?s)) (getBoundingClientRect ?L (node ?s)) = 50"
    by (simp add: boundX_double_def example_sel)
  have my: "boundY_double (normalizedDelta (cfg ?s)) (getBoundingClientRect ?L (node ?s)) = 30"
    by (simp add: boundY_double_def example_sel)
  have sx: "free_slack_x ?L ?e ?s = 0"
    by (simp add: free_slack_x_def free_slack_def boundX_double_def example_sel whole_def)
  have sy: "free_slack_y ?L ?e ?s = 0"
    by (simp add: free_slack_y_def free_slack_def boundY_double_def example_sel whole_def)
  have "\<bar>sum_dx (onMouseMove_double ?L ?e ?s)\<bar> \<le> 50 \<and>
        \<bar>sum_dy (onMouseMove_double ?L ?e ?s)\<bar> \<le> 30"
    using mode_b_double_cumulative_within_bound [OF p _ _ r, of 2 "cfg ?s" example_browser]
    by (simp only: mx my sx sy) simp
  with p r sx sy show ?thesis by blast
qed

text \<open>
  Against claim C2 as stated: no boundary, bounds 50 and 30 pixels, the pointer moved
  from 0 to 20.25 and then to 50.01, which as a double is
  \<open>7038281792649953 / 2 ^ 47\<close>. The second move finds the new sum
  \<open>50.01\<close> above the bound and subtracts the excess from \<^verbatim>\<open>left\<close>, and the
  roundings of these operations leave the cumulative displacement at \<open>50 + 1 / 2 ^ 47\<close>,
  above the bound.
\<close>

theorem mode_b_cumulative_exceeds_bound:
  "parent (cfg (example_state (example_config None 50 30) 0 0)) = None \<and>
   boundX_double (normalizedDelta (cfg (example_state (example_config None 50 30) 0 0)))
     (example_rect 0 0 100 100) = 50 \<and>
   round_double (5001 / 100) = 7038281792649953 / 140737488355328 \<and>
   sum_dx
     (onMouseMove_double (example_layout (example_rect 0 0 100 100))
        (example_event (7038281792649953 / 140737488355328) 0 3)
        (onMouseMove_double (example_layout (example_rect 0 0 100 100))
           (example_event (81 / 4) 0 3)
           (example_state (example_config None 50 30) 0 0))) =
     7036874417766401 / 140737488355328 \<and>
   50 < sum_dx
     (onMouseMove_double (example_layout (example_rect 0 0 100 100))
        (example_event (7038281792649953 / 140737488355328) 0 3)
        (onMouseMove_double (example_layout (example_rect 0 0 100 100))
           (example_event (81 / 4) 0 3)
           (example_state (example_config None 50 30) 0 0)))"
proof -
  let ?L = "example_layout (example_rect 0 0 100 100)"
  let ?s0 = "example_state (example_config None 50 30) 0 0"
  let ?s1 = "onMouseMove_double ?L (example_event (81 / 4) 0 3) ?s0"
  let ?s2 = "onMouseMove_double ?L (example_event (7038281792649953 / 140737488355328) 0 3) ?s1"
  have p0: "parent (cfg ?s0) = None"
    by (simp add: example_defs)
  have b0: "boundX_double (normalizedDelta (cfg ?s0)) (example_rect 0 0 100 100) = 50"
    by (simp add: boundX_double_def example_defs)
  have box: "getBoundingClientRect ?L (node s) = example_rect 0 0 100 100" if "node s = 2" for s :: state
    using that by (simp add: example_layout_def)
  have n0: "node ?s0 = 2" by (simp add: example_defs)
  have s0: "pos_left (lastNodePosition ?s0) = 0" "pos_x (lastMousePosition ?s0) = 0"
    "sum_dx ?s0 = 0"
    by (simp_all add: example_state_def)
  have l1: "pos_left (lastNodePosition ?s1) = 81 / 4"
    by (simp add: onMouseMove_double_left_free [OF p0] free_axis_double_def Let_def
          box [OF n0] b0 s0 example_event_sel round_double_c2 round_double_zero)
  have x1: "sum_dx ?s1 = 81 / 4"
    by (simp add: onMouseMove_double_sum_dx [of ?L _ ?s0] l1 s0 round_double_c2)
  have p1: "parent (cfg ?s1) = None"
    by (simp add: onMouseMove_double_frame p0)
  have n1: "node ?s1 = 2" by (simp add: onMouseMove_double_frame n0)
  have c1: "cfg ?s1 = cfg ?s0" by (simp add: onMouseMove_double_frame)
  have m1: "pos_x (lastMousePosition ?s1) = 81 / 4"
    by (simp add: onMouseMove_double_frame example_event_sel)
  have l2: "pos_left (lastNodePosition ?s2) = 7036874417766401 / 140737488355328"
    by (simp add: onMouseMove_double_left_free [OF p1] free_axis_double_def Let_def
          box [OF n1] c1 b0 l1 x1 m1 example_event_sel round_double_c2 round_double_zero)
  have x2: "sum_dx ?s2 = 7036874417766401 / 140737488355328"
    by (simp add: onMouseMove_double_sum_dx [of ?L _ ?s1] l2 l1 x1 round_double_c2)
  from p0 b0 x2 round_double_c2(1) show ?thesis by simp
qed







end
